theory Spec2Isabelle
  imports Complex_Main "HOL-Library.Multiset"
begin

section \<open>JavaScript strings\<close>

text \<open>
  A string is the list of its UTF-16 code units, each a number below 65536, and
  \<^verbatim>\<open>length\<close> counts code units, as in JavaScript. \<open>utf16\<close> embeds a literal of ASCII
  characters. White space is the class that \<^verbatim>\<open>trim\<close> and the regular expression \<^verbatim>\<open>\s\<close>
  share, the WhiteSpace and LineTerminator code points of ECMAScript: U+0009 to U+000D,
  U+0020, U+00A0, U+1680, U+2000 to U+200A, U+2028, U+2029, U+202F, U+205F, U+3000 and
  U+FEFF. \<^verbatim>\<open>toLowerCase\<close> follows the case tables of the engine, which are not part of
  the repository; it is a parameter of the extraction (the field \<open>sv_toLowerCase\<close> of
  the collaborators below): the general theorems hold whatever it maps a string to, and
  the sample inputs, all of ASCII characters, use \<open>ascii_lower\<close>.
\<close>

type_synonym js_string = "nat list"

definition utf16 :: "string \<Rightarrow> js_string" where
  "utf16 s = map of_char s"

definition is_space :: "nat \<Rightarrow> bool" where
  "is_space c \<longleftrightarrow>
     (9 \<le> c \<and> c \<le> 13) \<or> c = 32 \<or> c = 160 \<or> c = 5760 \<or> (8192 \<le> c \<and> c \<le> 8202)
     \<or> c = 8232 \<or> c = 8233 \<or> c = 8239 \<or> c = 8287 \<or> c = 12288 \<or> c = 65279"

definition trim :: "js_string \<Rightarrow> js_string" where
  "trim s = rev (dropWhile is_space (rev (dropWhile is_space s)))"

fun startsWith :: "js_string \<Rightarrow> js_string \<Rightarrow> bool" where
  "startsWith s [] = True"
| "startsWith [] (c # cs) = False"
| "startsWith (d # ds) (c # cs) = (d = c \<and> startsWith ds cs)"

fun str_includes :: "js_string \<Rightarrow> js_string \<Rightarrow> bool" where
  "str_includes [] needle = (needle = [])"
| "str_includes (d # ds) needle = (startsWith (d # ds) needle \<or> str_includes ds needle)"

fun join :: "js_string \<Rightarrow> js_string list \<Rightarrow> js_string" where
  "join sep [] = []"
| "join sep [s] = s"
| "join sep (s # t # ts) = s @ sep @ join sep (t # ts)"

text \<open>
  \<^verbatim>\<open>s.split(/\s+/)\<close>: the pieces between maximal runs of white space. A string that
  starts or ends with white space gives an empty first or last piece, and the empty
  string gives one empty piece. \<open>inSeparator\<close> says that the code unit before was white
  space, \<open>piece\<close> is the piece read so far.
\<close>

fun split_from :: "bool \<Rightarrow> js_string \<Rightarrow> js_string \<Rightarrow> js_string list" where
  "split_from inSeparator piece [] = [piece]"
| "split_from inSeparator piece (c # cs) =
     (if is_space c
      then (if inSeparator then split_from True piece cs else piece # split_from True [] cs)
      else split_from False (piece @ [c]) cs)"

definition split_ws :: "js_string \<Rightarrow> js_string list" where
  "split_ws s = split_from False [] s"

text \<open>\<^verbatim>\<open>text.split(/\s+/).filter(w => w.trim())\<close>, the tokenisation of lines 266, 319, 661, 703.\<close>

definition tokens :: "js_string \<Rightarrow> js_string list" where
  "tokens s = filter (\<lambda>w. trim w \<noteq> []) (split_ws s)"

section \<open>Data model\<close>

text \<open>
  The extraction pipeline of \<^verbatim>\<open>EnhancedPDFProcessor\<close> (src/unnamed/part_000) works on
  JavaScript numbers. They are modelled as real numbers: every comparison and every
  arithmetic operation below is the exact one, rounding is not modelled.
  Random identifiers (\<^verbatim>\<open>nanoid()\<close>) of legacy chunks are opaque and left out of the
  chunk record; the template-string identifiers of lines and blocks are kept as tagged
  indices.
\<close>

record BoundingBox =
  bbox_x :: real
  bbox_y :: real
  bbox_width :: real
  bbox_height :: real

record Word =
  w_text :: js_string
  w_bbox :: BoundingBox
  w_confidence :: real
  w_fontFamily :: js_string
  w_fontSize :: real

datatype line_id = LineId nat | FallbackLineId nat

record Line =
  l_id :: line_id
  l_words :: "Word list"
  l_bbox :: BoundingBox
  l_readingOrder :: nat
  l_alignment :: js_string

datatype block_id = BlockId nat | FallbackBlockId nat

datatype block_type = Paragraph | Heading | ListBlock | TableBlock | Footer | ImageBlock

record Block =
  b_id :: block_id
  b_type :: block_type
  b_bbox :: BoundingBox
  b_lines :: "Line list"
  b_confidence :: real
  b_semanticRole :: "js_string option"
  b_readingOrder :: nat

record Geometry =
  g_x :: real
  g_y :: real
  g_w :: real
  g_h :: real

record LegacyTextChunk =
  c_text :: js_string
  c_pageNumber :: nat
  c_geometry :: Geometry

section \<open>Grouping engine\<close>

subsection \<open>Array.prototype.sort\<close>

text \<open>
  \<^verbatim>\<open>[...words].sort(cmp)\<close> is the library's stable sort. It is modelled by a stable
  insertion sort driven by the sign of the comparator, which is what every conforming
  engine returns whenever the comparator is consistent on the array.
\<close>

fun insort_cmp :: "('a \<Rightarrow> 'a \<Rightarrow> real) \<Rightarrow> 'a \<Rightarrow> 'a list \<Rightarrow> 'a list" where
  "insort_cmp cmp a [] = [a]"
| "insort_cmp cmp a (b # bs) =
     (if cmp a b \<le> 0 then a # b # bs else b # insort_cmp cmp a bs)"

fun js_sort :: "('a \<Rightarrow> 'a \<Rightarrow> real) \<Rightarrow> 'a list \<Rightarrow> 'a list" where
  "js_sort cmp [] = []"
| "js_sort cmp (a # as) = insort_cmp cmp a (js_sort cmp as)"

subsection \<open>groupWordsIntoLines (lines 929-962)\<close>

definition word_cmp :: "Word \<Rightarrow> Word \<Rightarrow> real" where
  "word_cmp a b =
     (let yDiff = bbox_y (w_bbox a) - bbox_y (w_bbox b)
      in if \<bar>yDiff\<bar> < 0.01 then bbox_x (w_bbox a) - bbox_x (w_bbox b) else yDiff)"

text \<open>
  The loop over \<^verbatim>\<open>sortedWords[1..]\<close>: \<open>lines\<close> and \<open>currentLine\<close> are the two mutable
  variables of the source, the third argument is the part of the array still to visit.
\<close>

fun scan_words :: "Word list list \<Rightarrow> Word list \<Rightarrow> Word list \<Rightarrow> Word list list" where
  "scan_words lines currentLine [] =
     (if length currentLine > 0 then lines @ [currentLine] else lines)"
| "scan_words lines currentLine (currentWord # rest) =
     (let lastWordInLine = last currentLine
      in if \<bar>bbox_y (w_bbox currentWord) - bbox_y (w_bbox lastWordInLine)\<bar> < 0.02
         then scan_words lines (currentLine @ [currentWord]) rest
         else scan_words (lines @ [currentLine]) [currentWord] rest)"

definition groupWordsIntoLines :: "Word list \<Rightarrow> Word list list" where
  "groupWordsIntoLines words =
     (if length words = 0 then []
      else let sortedWords = js_sort word_cmp words
           in scan_words [] [hd sortedWords] (tl sortedWords))"

subsection \<open>groupLinesIntoBlocks (lines 965-992)\<close>

fun scan_lines :: "Line list list \<Rightarrow> Line list \<Rightarrow> Line list \<Rightarrow> Line list list" where
  "scan_lines blocks currentBlock [] =
     (if length currentBlock > 0 then blocks @ [currentBlock] else blocks)"
| "scan_lines blocks currentBlock (currentLine # rest) =
     (let lastLineInBlock = last currentBlock;
          verticalGap = bbox_y (l_bbox currentLine)
                        - (bbox_y (l_bbox lastLineInBlock) + bbox_height (l_bbox lastLineInBlock))
      in if verticalGap > 0.03
         then scan_lines (blocks @ [currentBlock]) [currentLine] rest
         else scan_lines blocks (currentBlock @ [currentLine]) rest)"

definition groupLinesIntoBlocks :: "Line list \<Rightarrow> Line list list" where
  "groupLinesIntoBlocks lines =
     (if length lines = 0 then [] else scan_lines [] [hd lines] (tl lines))"

subsection \<open>calculateBoundingBox (lines 995-1011)\<close>

text \<open>
  \<^verbatim>\<open>Math.min(...xs)\<close> and \<^verbatim>\<open>Math.max(...xs)\<close> on a non-empty argument list. With no
  argument JavaScript returns an infinity; \<open>calculateBoundingBox\<close> returns before it
  could call them so, and the model gives 0 there.
\<close>

fun Math_min :: "real list \<Rightarrow> real" where
  "Math_min [] = 0"
| "Math_min (v # vs) = fold min vs v"

fun Math_max :: "real list \<Rightarrow> real" where
  "Math_max [] = 0"
| "Math_max (v # vs) = fold max vs v"

definition calculateBoundingBox :: "BoundingBox list \<Rightarrow> BoundingBox" where
  "calculateBoundingBox bboxes =
     (if length bboxes = 0
      then \<lparr>bbox_x = 0, bbox_y = 0, bbox_width = 0, bbox_height = 0\<rparr>
      else let minX = Math_min (map bbox_x bboxes);
               minY = Math_min (map bbox_y bboxes);
               maxX = Math_max (map (\<lambda>b. bbox_x b + bbox_width b) bboxes);
               maxY = Math_max (map (\<lambda>b. bbox_y b + bbox_height b) bboxes)
           in \<lparr>bbox_x = minX, bbox_y = minY,
               bbox_width = maxX - minX, bbox_height = maxY - minY\<rparr>)"

text \<open>
  The construction of Line objects from the groups, as both extraction paths do it
  (lines 416-429 and 873-886): empty groups are skipped, the index of the group is the
  reading order.
\<close>

definition make_line :: "nat \<Rightarrow> Word list \<Rightarrow> Line" where
  "make_line lineIndex lineWords =
     \<lparr>l_id = LineId lineIndex, l_words = lineWords,
      l_bbox = calculateBoundingBox (map w_bbox lineWords),
      l_readingOrder = lineIndex, l_alignment = utf16 ''left''\<rparr>"

definition build_lines :: "Word list list \<Rightarrow> Line list" where
  "build_lines groupedLines =
     map (\<lambda>(lineIndex, lineWords). make_line lineIndex lineWords)
       (filter (\<lambda>(lineIndex, lineWords). length lineWords > 0)
          (zip [0..<length groupedLines] groupedLines))"

subsection \<open>Predicates and sample inputs for the grouping theorems\<close>

text \<open>
  \<open>near_y\<close> is the test of line 949 on the \<^verbatim>\<open>bbox.y\<close> fields (the top edges) of two
  words; \<open>center_y\<close> is the vertical centre of a word's box; \<open>covers\<close> says that one
  box contains another.
\<close>

definition near_y :: "Word \<Rightarrow> Word \<Rightarrow> bool" where
  "near_y a b \<longleftrightarrow> \<bar>bbox_y (w_bbox b) - bbox_y (w_bbox a)\<bar> < 0.02"

definition center_y :: "Word \<Rightarrow> real" where
  "center_y w = bbox_y (w_bbox w) + bbox_height (w_bbox w) / 2"

definition word_at :: "string \<Rightarrow> real \<Rightarrow> real \<Rightarrow> real \<Rightarrow> real \<Rightarrow> Word" where
  "word_at t px py pw ph =
     \<lparr>w_text = utf16 t, w_bbox = \<lparr>bbox_x = px, bbox_y = py, bbox_width = pw, bbox_height = ph\<rparr>,
      w_confidence = 0.9, w_fontFamily = utf16 ''Arial'', w_fontSize = 12\<rparr>"

definition tie_a :: Word where "tie_a = word_at ''a'' 0.5 0 0.1 0.01"
definition tie_b :: Word where "tie_b = word_at ''b'' 0.5 0.009 0.1 0.01"
definition tie_c :: Word where "tie_c = word_at ''c'' 0.5 0.025 0.1 0.01"

definition row_p :: Word where "row_p = word_at ''p'' 0.1 0.1 0.1 0.01"
definition row_q :: Word where "row_q = word_at ''q'' 0.3 0.1 0.1 0.01"
definition row_r :: Word where "row_r = word_at ''r'' 0.1 0.2 0.1 0.01"

definition tall_a :: Word where "tall_a = word_at ''A'' 0.1 0 0.1 0.1"
definition small_b :: Word where "small_b = word_at ''b'' 0.3 0.01 0.1 0.01"
definition tall_c :: Word where "tall_c = word_at ''C'' 0.1 0 0.1 0.06"
definition small_d :: Word where "small_d = word_at ''d'' 0.3 0.025 0.1 0.01"

definition covers :: "BoundingBox \<Rightarrow> BoundingBox \<Rightarrow> bool" where
  "covers outer inner \<longleftrightarrow>
     bbox_x outer \<le> bbox_x inner \<and> bbox_y outer \<le> bbox_y inner
     \<and> bbox_x inner + bbox_width inner \<le> bbox_x outer + bbox_width outer
     \<and> bbox_y inner + bbox_height inner \<le> bbox_y outer + bbox_height outer"

definition box_a :: BoundingBox where
  "box_a = \<lparr>bbox_x = 0.1, bbox_y = 0.3, bbox_width = 0.2, bbox_height = 0.25\<rparr>"
definition box_b :: BoundingBox where
  "box_b = \<lparr>bbox_x = 0.4, bbox_y = 0.2, bbox_width = 0.2, bbox_height = 0.05\<rparr>"

section \<open>Inputs of the extraction and its result\<close>

text \<open>
  The collaborators are black boxes. A call of the vision model either throws or returns
  its result; \<^verbatim>\<open>worker.recognize\<close> (with the \<^verbatim>\<open>setParameters\<close> before it) either throws or
  returns the recognised data, as a function of the parameters that were set. Creating
  and terminating the OCR worker and encoding the canvas are taken to succeed. The canvas
  is known by its pixel width and height. \<open>sv_toLowerCase\<close> is the engine's
  \<^verbatim>\<open>String.prototype.toLowerCase\<close>.
\<close>

datatype js_error = ReferenceError string | RemoteError nat | OtherError

record Canvas =
  cv_width :: real
  cv_height :: real

text \<open>
  A text item of the PDF text layer. \<^verbatim>\<open>width\<close>, \<^verbatim>\<open>height\<close> and \<^verbatim>\<open>fontName\<close> are read
  through \<^verbatim>\<open>||\<close>: the values 0 and the empty string stand for an absent field too.
\<close>

record TextItem =
  ti_str :: js_string
  ti_transform :: "real list"
  ti_width :: real
  ti_height :: real
  ti_fontName :: js_string

record OcrBBox =
  ob_x0 :: real
  ob_y0 :: real
  ob_x1 :: real
  ob_y1 :: real

record OcrWord =
  ow_text :: js_string
  ow_bbox :: "OcrBBox option"
  ow_confidence :: real

record OcrLine =
  ol_text :: js_string
  ol_bbox :: "OcrBBox option"
  ol_confidence :: real

record OcrData =
  od_words :: "OcrWord list"
  od_lines :: "OcrLine list"
  od_text :: js_string

datatype PSM = SINGLE_BLOCK | AUTO_OSD

record OcrParams =
  op_pageseg_mode :: "PSM option"
  op_user_defined_dpi :: "nat option"

record GeminiResult =
  gr_text :: js_string
  gr_confidence :: real

record Element =
  el_type :: js_string
  el_content :: js_string
  el_confidence :: real

record StructureResult =
  sr_elements :: "Element list"
  sr_completeText :: js_string

record Services =
  sv_extractTextWithGemini :: "js_error + GeminiResult"
  sv_analyzeDocumentStructure :: "js_error + StructureResult"
  sv_recognize :: "OcrParams \<Rightarrow> js_error + OcrData"
  sv_toLowerCase :: "js_string \<Rightarrow> js_string"

record Coverage =
  cov_pdfNativeWords :: nat
  cov_ocrWords :: nat
  cov_reconciledWords :: nat
  cov_coveragePercent :: real

text \<open>
  The page of the intermediate representation. The \<^verbatim>\<open>semanticRegions\<close> that the plain OCR
  path adds are not modelled.
\<close>

record IRPage =
  ir_pageNumber :: nat
  ir_width :: real
  ir_height :: real
  ir_words :: "Word list"
  ir_lines :: "Line list"
  ir_blocks :: "Block list"
  ir_coverage :: Coverage

type_synonym extraction = "LegacyTextChunk list \<times> IRPage"

text \<open>
  An extraction is observed by the parameters of the \<^verbatim>\<open>recognize\<close> calls it made, in order,
  and by what it returned or threw.
\<close>

type_synonym observed = "OcrParams list \<times> (js_error + extraction)"

section \<open>performGeminiExtraction, the primary path (lines 68-581)\<close>

subsection \<open>The OCR configurations (lines 97-141)\<close>

definition ocrConfigs :: "OcrParams list" where
  "ocrConfigs =
     [\<lparr>op_pageseg_mode = Some SINGLE_BLOCK, op_user_defined_dpi = Some 300\<rparr>,
      \<lparr>op_pageseg_mode = Some AUTO_OSD, op_user_defined_dpi = Some 300\<rparr>,
      \<lparr>op_pageseg_mode = Some SINGLE_BLOCK, op_user_defined_dpi = Some 300\<rparr>]"

text \<open>
  The loop stops at the first configuration whose result has words; a configuration
  that throws or gives no word is passed over. The first component lists the
  configurations tried.
\<close>

fun try_configs :: "(OcrParams \<Rightarrow> js_error + OcrData) \<Rightarrow> OcrParams list
                    \<Rightarrow> OcrParams list \<times> OcrData option" where
  "try_configs recognize [] = ([], None)"
| "try_configs recognize (config # configs) =
     (case recognize config of
        Inr data \<Rightarrow>
          if length (od_words data) > 0 then ([config], Some data)
          else (config # fst (try_configs recognize configs), snd (try_configs recognize configs))
      | Inl configError \<Rightarrow>
          (config # fst (try_configs recognize configs), snd (try_configs recognize configs)))"

subsection \<open>Priority 1: the PDF text layer (lines 165-212)\<close>

text \<open>
  The word that line 185 builds from a text item. The transform of an item has six
  entries; entries 4 and 5 are the position, entry 0 gives the font size.
\<close>

definition native_word :: "Canvas \<Rightarrow> TextItem \<Rightarrow> Word" where
  "native_word canvas item =
     (let transform = ti_transform item;
          x = transform ! 4;
          y = transform ! 5;
          fontSize = \<bar>transform ! 0\<bar>;
          textWidth = (if ti_width item \<noteq> 0 then ti_width item
                       else real (length (ti_str item)) * fontSize * 0.6);
          textHeight = (if ti_height item \<noteq> 0 then ti_height item else fontSize)
      in \<lparr>w_text = ti_str item,
          w_bbox = \<lparr>bbox_x = x / cv_width canvas,
                     bbox_y = (cv_height canvas - y - textHeight) / cv_height canvas,
                     bbox_width = textWidth / cv_width canvas,
                     bbox_height = textHeight / cv_height canvas\<rparr>,
          w_confidence = 0.98,
          w_fontFamily = (if ti_fontName item \<noteq> [] then ti_fontName item else utf16 ''Arial''),
          w_fontSize = fontSize\<rparr>)"

text \<open>
  The body of the \<^verbatim>\<open>forEach\<close> over the text items. For an item with text it builds the
  word and pushes it, and then builds the legacy chunk, whose geometry (lines 201-204)
  reads \<^verbatim>\<open>x\<close>, \<^verbatim>\<open>y\<close>, \<^verbatim>\<open>w\<close> and \<^verbatim>\<open>h\<close>. No binding of \<^verbatim>\<open>w\<close> or \<^verbatim>\<open>h\<close> is in scope there (not
  in the callback, not in \<^verbatim>\<open>performGeminiExtraction\<close>, not in the component, not in the
  module), so evaluating \<^verbatim>\<open>Math.min(w, 100)\<close> throws a ReferenceError, which leaves the
  \<^verbatim>\<open>forEach\<close> and the \<^verbatim>\<open>try\<close> block. The arrays pushed to are local to the \<^verbatim>\<open>try\<close> block
  and are lost with it.
\<close>

fun native_items :: "Canvas \<Rightarrow> TextItem list \<Rightarrow> Word list \<Rightarrow> js_error + Word list" where
  "native_items canvas [] words = Inr words"
| "native_items canvas (item # items) words =
     (if ti_str item \<noteq> [] \<and> trim (ti_str item) \<noteq> []
      then (let pushed = words @ [native_word canvas item] in Inl (ReferenceError ''w''))
      else native_items canvas items words)"

subsection \<open>Priority 2: the OCR words (lines 214-253)\<close>

definition ocr_word_primary :: "Canvas \<Rightarrow> nat \<Rightarrow> OcrWord \<Rightarrow> (Word \<times> LegacyTextChunk) option" where
  "ocr_word_primary canvas pageNumber ocrWord =
     (case ow_bbox ocrWord of
        None \<Rightarrow> None
      | Some bbox \<Rightarrow>
          if trim (ow_text ocrWord) = [] then None
          else let normalizedBBox =
                 \<lparr>bbox_x = max 0 (min (ob_x0 bbox / cv_width canvas) 1),
                  bbox_y = max 0 (min (ob_y0 bbox / cv_height canvas) 1),
                  bbox_width = max 0.001 (min ((ob_x1 bbox - ob_x0 bbox) / cv_width canvas)
                                              (1 - ob_x0 bbox / cv_width canvas)),
                  bbox_height = max 0.001 (min ((ob_y1 bbox - ob_y0 bbox) / cv_height canvas)
                                               (1 - ob_y0 bbox / cv_height canvas))\<rparr>
               in Some (\<lparr>w_text = ow_text ocrWord, w_bbox = normalizedBBox,
                          w_confidence = ow_confidence ocrWord / 100,
                          w_fontFamily = utf16 ''Arial'', w_fontSize = 12\<rparr>,
                        \<lparr>c_text = ow_text ocrWord, c_pageNumber = pageNumber,
                          c_geometry = \<lparr>g_x = bbox_x normalizedBBox * 100,
                                         g_y = bbox_y normalizedBBox * 100,
                                         g_w = bbox_width normalizedBBox * 100,
                                         g_h = bbox_height normalizedBBox * 100\<rparr>\<rparr>))"

subsection \<open>Fallback 1: words synthesised from OCR lines (lines 262-314)\<close>

definition line_usable :: "OcrLine \<Rightarrow> bool" where
  "line_usable line \<longleftrightarrow> ol_text line \<noteq> [] \<and> trim (ol_text line) \<noteq> [] \<and> ol_bbox line \<noteq> None"

text \<open>One round of the inner \<^verbatim>\<open>forEach\<close>: the entry for a word and the new \<^verbatim>\<open>currentX\<close>.\<close>

definition line_word_primary :: "Canvas \<Rightarrow> nat \<Rightarrow> OcrLine \<Rightarrow> OcrBBox \<Rightarrow> real \<Rightarrow> js_string
                          \<Rightarrow> (Word \<times> LegacyTextChunk) \<times> real" where
  "line_word_primary canvas pageNumber line bbox currentX wordText =
     (let lineWidth = ob_x1 bbox - ob_x0 bbox;
          lineHeight = ob_y1 bbox - ob_y0 bbox;
          avgCharWidth = lineWidth / real (length (ol_text line));
          wordWidth = max (real (length wordText) * avgCharWidth) (lineWidth * 0.03);
          spacing = lineWidth * 0.01;
          word = \<lparr>w_text = wordText,
                  w_bbox = \<lparr>bbox_x = currentX / cv_width canvas,
                             bbox_y = ob_y0 bbox / cv_height canvas,
                             bbox_width = wordWidth / cv_width canvas,
                             bbox_height = lineHeight / cv_height canvas\<rparr>,
                  w_confidence = (if ol_confidence line \<noteq> 0 then ol_confidence line else 80) / 100,
                  w_fontFamily = utf16 ''Arial'',
                  w_fontSize = max 8 (lineHeight * 0.8)\<rparr>;
          legacyChunk = \<lparr>c_text = wordText, c_pageNumber = pageNumber,
                         c_geometry =
                           \<lparr>g_x = max 0 (min ((currentX / cv_width canvas) * 100) 100),
                            g_y = max 0 (min ((ob_y0 bbox / cv_height canvas) * 100) 100),
                            g_w = max 0.5 (min ((wordWidth / cv_width canvas) * 100) 100),
                            g_h = max 1.0 (min ((lineHeight / cv_height canvas) * 100) 100)\<rparr>\<rparr>
      in ((word, legacyChunk), currentX + wordWidth + spacing))"

fun line_words_primary :: "Canvas \<Rightarrow> nat \<Rightarrow> OcrLine \<Rightarrow> OcrBBox \<Rightarrow> real \<Rightarrow> js_string list
                           \<Rightarrow> (Word \<times> LegacyTextChunk) list" where
  "line_words_primary canvas pageNumber line bbox currentX [] = []"
| "line_words_primary canvas pageNumber line bbox currentX (wordText # rest) =
     fst (line_word_primary canvas pageNumber line bbox currentX wordText)
     # line_words_primary canvas pageNumber line bbox
         (snd (line_word_primary canvas pageNumber line bbox currentX wordText)) rest"

definition line_entries_primary :: "Canvas \<Rightarrow> nat \<Rightarrow> OcrLine \<Rightarrow> (Word \<times> LegacyTextChunk) list" where
  "line_entries_primary canvas pageNumber line =
     (case ol_bbox line of
        None \<Rightarrow> []
      | Some bbox \<Rightarrow>
          if line_usable line
          then line_words_primary canvas pageNumber line bbox (ob_x0 bbox) (tokens (ol_text line))
          else [])"

subsection \<open>Fallback 2: a document flow from the vision model's text (lines 317-383)\<close>

text \<open>
  One round of the \<^verbatim>\<open>forEach\<close>: the entry for a word and the new \<^verbatim>\<open>currentX\<close> and
  \<^verbatim>\<open>currentY\<close>.
\<close>

definition flow_word :: "nat \<Rightarrow> real \<Rightarrow> nat \<Rightarrow> real \<Rightarrow> real \<Rightarrow> js_string
                  \<Rightarrow> (Word \<times> LegacyTextChunk) \<times> real \<times> real" where
  "flow_word pageNumber confidence wordIndex currentX currentY wordText =
     (let marginTop = 0.08; marginBottom = 0.08; marginLeft = 0.06; marginRight = 0.06;
          contentWidth = 1 - marginLeft - marginRight;
          avgWordsPerLine = 12;
          lineHeight = 0.025;
          wordSpacing = 0.008;
          avgCharWidth = contentWidth / (real avgWordsPerLine * 7);
          wordWidth = max (real (length wordText) * avgCharWidth) (contentWidth * 0.02);
          wrap = (currentX + wordWidth > 1 - marginRight
                  \<or> (wordIndex > 0 \<and> wordIndex mod avgWordsPerLine = 0));
          x1 = (if wrap then marginLeft else currentX);
          y1 = (if wrap then currentY + lineHeight * 1.2 else currentY);
          overflow = (y1 + lineHeight > 1 - marginBottom);
          y2 = (if overflow then marginTop else y1);
          x2 = (if overflow then x1 + contentWidth * 0.5 else x1);
          word = \<lparr>w_text = wordText,
                  w_bbox = \<lparr>bbox_x = x2, bbox_y = y2, bbox_width = wordWidth,
                             bbox_height = lineHeight\<rparr>,
                  w_confidence = confidence, w_fontFamily = utf16 ''Arial'', w_fontSize = 12\<rparr>;
          legacyChunk = \<lparr>c_text = wordText, c_pageNumber = pageNumber,
                         c_geometry = \<lparr>g_x = max 0 (min (x2 * 100) 100),
                                        g_y = max 0 (min (y2 * 100) 100),
                                        g_w = max 0.5 (min (wordWidth * 100) 100),
                                        g_h = max 1.0 (min (lineHeight * 100) 100)\<rparr>\<rparr>
      in ((word, legacyChunk), x2 + wordWidth + wordSpacing, y2))"

fun flow_words :: "nat \<Rightarrow> real \<Rightarrow> nat \<Rightarrow> real \<Rightarrow> real \<Rightarrow> js_string list
                   \<Rightarrow> (Word \<times> LegacyTextChunk) list" where
  "flow_words pageNumber confidence wordIndex currentX currentY [] = []"
| "flow_words pageNumber confidence wordIndex currentX currentY (wordText # rest) =
     fst (flow_word pageNumber confidence wordIndex currentX currentY wordText)
     # flow_words pageNumber confidence (wordIndex + 1)
         (fst (snd (flow_word pageNumber confidence wordIndex currentX currentY wordText)))
         (snd (snd (flow_word pageNumber confidence wordIndex currentX currentY wordText))) rest"

text \<open>
  Step 4 (lines 256-386), entered when no word has been created: the OCR lines first, the
  vision model's text if no line was usable.
\<close>

definition fallback_generation :: "Canvas \<Rightarrow> nat \<Rightarrow> OcrData option \<Rightarrow> GeminiResult
                                   \<Rightarrow> (Word \<times> LegacyTextChunk) list" where
  "fallback_generation canvas pageNumber ocrData geminiResult =
     (let ocrLines = (case ocrData of None \<Rightarrow> [] | Some data \<Rightarrow> od_lines data);
          fromLines = concat (map (line_entries_primary canvas pageNumber) ocrLines);
          fallbackCoordinatesCreated = list_ex line_usable ocrLines
      in if \<not> fallbackCoordinatesCreated \<and> gr_text geminiResult \<noteq> []
         then fromLines @ flow_words pageNumber (gr_confidence geminiResult) 0 0.06 0.08
                            (tokens (gr_text geminiResult))
         else fromLines)"

definition placeholderChunk :: "nat \<Rightarrow> LegacyTextChunk" where
  "placeholderChunk pageNumber =
     \<lparr>c_text = utf16 ''No text detected'', c_pageNumber = pageNumber,
      c_geometry = \<lparr>g_x = 10, g_y = 10, g_w = 20, g_h = 5\<rparr>\<rparr>"

text \<open>
  Steps 3 to 5 (lines 157-404): the word set and the legacy chunks of the page, or the
  exception that leaves the \<^verbatim>\<open>try\<close> block.
\<close>

definition select_words :: "Canvas \<Rightarrow> nat \<Rightarrow> TextItem list \<Rightarrow> OcrData option \<Rightarrow> GeminiResult
                            \<Rightarrow> js_error + (Word \<times> LegacyTextChunk) list \<times> LegacyTextChunk list" where
  "select_words canvas pageNumber pdfTextItems ocrData geminiResult =
     (case (if length pdfTextItems > 0
            then (case native_items canvas pdfTextItems [] of
                    Inl e \<Rightarrow> Inl e
                  | Inr native \<Rightarrow> Inr [])
            else (case ocrData of
                    Some data \<Rightarrow> Inr (List.map_filter (ocr_word_primary canvas pageNumber) (od_words data))
                  | None \<Rightarrow> Inr [])) of
        Inl e \<Rightarrow> Inl e
      | Inr direct \<Rightarrow>
          let entries = (if length direct = 0
                         then fallback_generation canvas pageNumber ocrData geminiResult
                         else direct)
          in Inr (entries, if length entries = 0 then [placeholderChunk pageNumber] else []))"

subsection \<open>Blocks with the vision model's labels (lines 432-484)\<close>

definition mapElementTypeToBlockType :: "(js_string \<Rightarrow> js_string) \<Rightarrow> js_string \<Rightarrow> block_type" where
  "mapElementTypeToBlockType toLowerCase elementType =
     (let t = toLowerCase elementType
      in if t = utf16 ''title'' \<or> t = utf16 ''header'' then Heading
         else if t = utf16 ''table'' then TableBlock
         else if t = utf16 ''list'' then ListBlock
         else if t = utf16 ''footer'' then Footer
         else if t = utf16 ''image'' then ImageBlock
         else Paragraph)"

text \<open>
  A JavaScript \<^verbatim>\<open>Map\<close> keeps its keys in insertion order; setting a key that is present
  replaces the value and keeps the position.
\<close>

fun map_set :: "'k \<Rightarrow> 'v \<Rightarrow> ('k \<times> 'v) list \<Rightarrow> ('k \<times> 'v) list" where
  "map_set k v [] = [(k, v)]"
| "map_set k v ((k', v') # m) = (if k = k' then (k, v) # m else (k', v') # map_set k v m)"

type_synonym semantic_map = "(js_string \<times> (js_string \<times> real \<times> js_string)) list"

definition semanticMap :: "(js_string \<Rightarrow> js_string) \<Rightarrow> Element list \<Rightarrow> semantic_map" where
  "semanticMap toLowerCase elements =
     fold (\<lambda>element m.
             if trim (el_content element) \<noteq> []
             then map_set (trim (toLowerCase (el_content element)))
                          (el_type element, el_confidence element, el_type element) m
             else m)
          elements []"

definition lines_text :: "Line list \<Rightarrow> js_string" where
  "lines_text blockLines =
     join [10] (map (\<lambda>line. join [32] (map w_text (l_words line))) blockLines)"

definition semantic_block :: "(js_string \<Rightarrow> js_string) \<Rightarrow> semantic_map \<Rightarrow> nat \<Rightarrow> Line list \<Rightarrow> Block" where
  "semantic_block toLowerCase smap blockIndex blockLines =
     (let blockBBox = calculateBoundingBox (map l_bbox blockLines);
          blockText = trim (toLowerCase (lines_text blockLines));
          semanticInfo =
            (case find (\<lambda>(elementText, info).
                          str_includes blockText elementText \<or> str_includes elementText blockText) smap of
               None \<Rightarrow> (utf16 ''paragraph'', 0.8, None)
             | Some (elementText, (ty, conf, role)) \<Rightarrow> (ty, max conf 0.7, Some role))
      in case semanticInfo of (ty, conf, role) \<Rightarrow>
           \<lparr>b_id = BlockId blockIndex, b_type = mapElementTypeToBlockType toLowerCase ty, b_bbox = blockBBox,
            b_lines = blockLines, b_confidence = conf, b_semanticRole = role,
            b_readingOrder = blockIndex\<rparr>)"

definition build_blocks :: "(js_string \<Rightarrow> js_string) \<Rightarrow> semantic_map \<Rightarrow> Line list list \<Rightarrow> Block list" where
  "build_blocks toLowerCase smap groupedBlocks =
     map (\<lambda>(blockIndex, blockLines). semantic_block toLowerCase smap blockIndex blockLines)
       (filter (\<lambda>(blockIndex, blockLines). length blockLines > 0)
          (zip [0..<length groupedBlocks] groupedBlocks))"

subsection \<open>Step 5: the completeness check (lines 486-562)\<close>

definition extractedText :: "Word list \<Rightarrow> js_string" where
  "extractedText words = join [32] (map w_text words)"

definition completeText :: "StructureResult \<Rightarrow> GeminiResult \<Rightarrow> js_string" where
  "completeText structureResult geminiResult =
     (if sr_completeText structureResult \<noteq> [] then sr_completeText structureResult
      else gr_text geminiResult)"

definition gap_detected :: "StructureResult \<Rightarrow> GeminiResult \<Rightarrow> Word list \<Rightarrow> bool" where
  "gap_detected structureResult geminiResult words \<longleftrightarrow>
     real (length (completeText structureResult geminiResult))
       > real (length (extractedText words)) * 1.2"

definition missingTextElements :: "(js_string \<Rightarrow> js_string) \<Rightarrow> StructureResult \<Rightarrow> Word list
                                   \<Rightarrow> Element list" where
  "missingTextElements toLowerCase structureResult words =
     filter (\<lambda>element.
               let elementText = trim (toLowerCase (el_content element))
               in length elementText > 0
                  \<and> \<not> str_includes (toLowerCase (extractedText words)) elementText)
            (sr_elements structureResult)"

definition fallbackBBox :: "nat \<Rightarrow> BoundingBox" where
  "fallbackBBox index =
     \<lparr>bbox_x = 0.1, bbox_y = 0.8 + real index * 0.05, bbox_width = 0.8, bbox_height = 0.04\<rparr>"

definition fallbackWords :: "nat \<Rightarrow> Element \<Rightarrow> Word list" where
  "fallbackWords index element =
     map (\<lambda>(wordIndex, wordText).
            \<lparr>w_text = wordText,
             w_bbox = \<lparr>bbox_x = bbox_x (fallbackBBox index) + real wordIndex * 0.05,
                        bbox_y = bbox_y (fallbackBBox index),
                        bbox_width = min 0.05 (real (length wordText) * 0.01),
                        bbox_height = bbox_height (fallbackBBox index)\<rparr>,
             w_confidence = el_confidence element, w_fontFamily = utf16 ''Arial'', w_fontSize = 12\<rparr>)
         (zip [0..<length (split_ws (el_content element))] (split_ws (el_content element)))"

definition fallbackLine :: "nat \<Rightarrow> nat \<Rightarrow> Element \<Rightarrow> Line" where
  "fallbackLine linesLength index element =
     \<lparr>l_id = FallbackLineId index, l_words = fallbackWords index element,
      l_bbox = fallbackBBox index, l_readingOrder = linesLength + index, l_alignment = utf16 ''left''\<rparr>"

definition fallbackBlock :: "(js_string \<Rightarrow> js_string) \<Rightarrow> nat \<Rightarrow> nat \<Rightarrow> nat \<Rightarrow> Element \<Rightarrow> Block" where
  "fallbackBlock toLowerCase linesLength blocksLength index element =
     \<lparr>b_id = FallbackBlockId index,
      b_type = mapElementTypeToBlockType toLowerCase (el_type element),
      b_bbox = fallbackBBox index, b_lines = [fallbackLine linesLength index element],
      b_confidence = el_confidence element, b_semanticRole = Some (el_type element),
      b_readingOrder = blocksLength + index\<rparr>"

definition fallbackChunk :: "nat \<Rightarrow> Word \<Rightarrow> LegacyTextChunk" where
  "fallbackChunk pageNumber word =
     \<lparr>c_text = w_text word, c_pageNumber = pageNumber,
      c_geometry = \<lparr>g_x = max 0 (min (bbox_x (w_bbox word) * 100) 100),
                     g_y = max 0 (min (bbox_y (w_bbox word) * 100) 100),
                     g_w = max 0.5 (min (bbox_width (w_bbox word) * 100) 100),
                     g_h = max 1.0 (min (bbox_height (w_bbox word) * 100) 100)\<rparr>\<rparr>"

text \<open>
  The page under construction: the four arrays that the \<^verbatim>\<open>try\<close> block fills.
  \<open>add_missing\<close> is the \<^verbatim>\<open>forEach\<close> over the missing elements; each round reads the
  current lengths of \<^verbatim>\<open>lines\<close> and \<^verbatim>\<open>blocks\<close> for the reading orders.
\<close>

record Arrays =
  a_legacyChunks :: "LegacyTextChunk list"
  a_words :: "Word list"
  a_lines :: "Line list"
  a_blocks :: "Block list"

fun add_missing :: "(js_string \<Rightarrow> js_string) \<Rightarrow> nat \<Rightarrow> nat \<Rightarrow> Element list \<Rightarrow> Arrays \<Rightarrow> Arrays" where
  "add_missing toLowerCase pageNumber index [] arrays = arrays"
| "add_missing toLowerCase pageNumber index (element # rest) arrays =
     add_missing toLowerCase pageNumber (index + 1) rest
       \<lparr>a_legacyChunks = a_legacyChunks arrays
                          @ map (fallbackChunk pageNumber) (fallbackWords index element),
        a_words = a_words arrays @ fallbackWords index element,
        a_lines = a_lines arrays @ [fallbackLine (length (a_lines arrays)) index element],
        a_blocks = a_blocks arrays
                   @ [fallbackBlock toLowerCase (length (a_lines arrays)) (length (a_blocks arrays))
                        index element]\<rparr>"

definition gap_repair :: "(js_string \<Rightarrow> js_string) \<Rightarrow> nat \<Rightarrow> StructureResult \<Rightarrow> GeminiResult
                          \<Rightarrow> Arrays \<Rightarrow> Arrays" where
  "gap_repair toLowerCase pageNumber structureResult geminiResult arrays =
     (if gap_detected structureResult geminiResult (a_words arrays)
      then add_missing toLowerCase pageNumber 0
             (missingTextElements toLowerCase structureResult (a_words arrays)) arrays
      else arrays)"

subsection \<open>The whole \<^verbatim>\<open>try\<close> block\<close>

definition primary_page :: "Canvas \<Rightarrow> nat \<Rightarrow> OcrData option \<Rightarrow> GeminiResult \<Rightarrow> Arrays \<Rightarrow> IRPage" where
  "primary_page canvas pageNumber ocrData geminiResult arrays =
     \<lparr>ir_pageNumber = pageNumber, ir_width = cv_width canvas, ir_height = cv_height canvas,
      ir_words = a_words arrays, ir_lines = a_lines arrays, ir_blocks = a_blocks arrays,
      ir_coverage =
        \<lparr>cov_pdfNativeWords = 0,
         cov_ocrWords = (case ocrData of None \<Rightarrow> 0 | Some data \<Rightarrow> length (od_words data)),
         cov_reconciledWords = length (a_words arrays),
         cov_coveragePercent = min 95 (gr_confidence geminiResult * 100)\<rparr>\<rparr>"

definition grouped_arrays :: "(js_string \<Rightarrow> js_string) \<Rightarrow> StructureResult
                              \<Rightarrow> (Word \<times> LegacyTextChunk) list \<Rightarrow> LegacyTextChunk list \<Rightarrow> Arrays" where
  "grouped_arrays toLowerCase structureResult entries placeholder =
     (let words = map fst entries;
          lines = build_lines (groupWordsIntoLines words);
          blocks = build_blocks toLowerCase (semanticMap toLowerCase (sr_elements structureResult))
                     (groupLinesIntoBlocks lines)
      in \<lparr>a_legacyChunks = map snd entries @ placeholder, a_words = words,
          a_lines = lines, a_blocks = blocks\<rparr>)"

definition try_block :: "Canvas \<Rightarrow> nat \<Rightarrow> (js_error + TextItem list) option \<Rightarrow> Services \<Rightarrow> observed" where
  "try_block canvas pageNumber pdfPage services =
     (case sv_extractTextWithGemini services of
        Inl e \<Rightarrow> ([], Inl e)
      | Inr geminiResult \<Rightarrow>
     (case sv_analyzeDocumentStructure services of
        Inl e \<Rightarrow> ([], Inl e)
      | Inr structureResult \<Rightarrow>
          let pdfTextItems = (case pdfPage of
                                None \<Rightarrow> []
                              | Some (Inl getTextContentError) \<Rightarrow> []
                              | Some (Inr items) \<Rightarrow> items);
              tried = try_configs (sv_recognize services) ocrConfigs;
              ocrData = snd tried
          in (case select_words canvas pageNumber pdfTextItems ocrData geminiResult of
                Inl e \<Rightarrow> (fst tried, Inl e)
              | Inr (entries, placeholder) \<Rightarrow>
                  let arrays = gap_repair (sv_toLowerCase services) pageNumber structureResult
                                 geminiResult
                                 (grouped_arrays (sv_toLowerCase services) structureResult entries
                                    placeholder)
                  in (fst tried,
                      Inr (a_legacyChunks arrays,
                           primary_page canvas pageNumber ocrData geminiResult arrays)))))"

section \<open>performGeminiExtraction, the \<^verbatim>\<open>catch\<close> block (lines 583-783)\<close>

definition fallbackParams :: OcrParams where
  "fallbackParams = \<lparr>op_pageseg_mode = Some SINGLE_BLOCK, op_user_defined_dpi = None\<rparr>"

text \<open>
  The words of the OCR result as the \<^verbatim>\<open>catch\<close> block (lines 615-650) and the plain OCR path
  (lines 833-870) take them: the box is divided by the canvas size, the geometry of the
  legacy chunk is the box in pixels.
\<close>

definition ocr_word_pixels :: "Canvas \<Rightarrow> nat \<Rightarrow> OcrWord \<Rightarrow> (Word \<times> LegacyTextChunk) option" where
  "ocr_word_pixels canvas pageNumber ocrWord =
     (case ow_bbox ocrWord of
        None \<Rightarrow> None
      | Some bbox \<Rightarrow>
          if trim (ow_text ocrWord) = [] then None
          else Some (\<lparr>w_text = ow_text ocrWord,
                       w_bbox = \<lparr>bbox_x = ob_x0 bbox / cv_width canvas,
                                  bbox_y = ob_y0 bbox / cv_height canvas,
                                  bbox_width = (ob_x1 bbox - ob_x0 bbox) / cv_width canvas,
                                  bbox_height = (ob_y1 bbox - ob_y0 bbox) / cv_height canvas\<rparr>,
                       w_confidence = ow_confidence ocrWord / 100,
                       w_fontFamily = utf16 ''Arial'', w_fontSize = 12\<rparr>,
                     \<lparr>c_text = ow_text ocrWord, c_pageNumber = pageNumber,
                       c_geometry = \<lparr>g_x = ob_x0 bbox, g_y = ob_y0 bbox,
                                      g_w = ob_x1 bbox - ob_x0 bbox,
                                      g_h = ob_y1 bbox - ob_y0 bbox\<rparr>\<rparr>))"

text \<open>Strategy 1 of the \<^verbatim>\<open>catch\<close> block (lines 657-698): equal shares of an OCR line.\<close>

definition line_entries_emergency :: "Canvas \<Rightarrow> nat \<Rightarrow> OcrLine \<Rightarrow> (Word \<times> LegacyTextChunk) list" where
  "line_entries_emergency canvas pageNumber line =
     (case ol_bbox line of
        None \<Rightarrow> []
      | Some bbox \<Rightarrow>
          if line_usable line
          then let lineWords = tokens (ol_text line);
                   wordWidth = (ob_x1 bbox - ob_x0 bbox) / real (length lineWords)
               in map (\<lambda>(wordIndex, wordText).
                         let wordX = ob_x0 bbox + real wordIndex * wordWidth
                         in (\<lparr>w_text = wordText,
                               w_bbox = \<lparr>bbox_x = wordX / cv_width canvas,
                                          bbox_y = ob_y0 bbox / cv_height canvas,
                                          bbox_width = wordWidth / cv_width canvas,
                                          bbox_height = (ob_y1 bbox - ob_y0 bbox) / cv_height canvas\<rparr>,
                               w_confidence =
                                 (if ol_confidence line \<noteq> 0 then ol_confidence line else 70) / 100,
                               w_fontFamily = utf16 ''Arial'', w_fontSize = 12\<rparr>,
                             \<lparr>c_text = wordText, c_pageNumber = pageNumber,
                               c_geometry = \<lparr>g_x = wordX, g_y = ob_y0 bbox, g_w = wordWidth,
                                              g_h = ob_y1 bbox - ob_y0 bbox\<rparr>\<rparr>))
                      (zip [0..<length lineWords] lineWords)
          else [])"

text \<open>
  Strategy 2 of the \<^verbatim>\<open>catch\<close> block (lines 701-740): a grid. \<open>gridCols\<close> is
  \<^verbatim>\<open>Math.min(12, Math.ceil(Math.sqrt(n)))\<close>, the least \<open>k\<close> below 12 with \<open>n \<le> k * k\<close> and
  12 if there is none.
\<close>

definition gridCols :: "nat \<Rightarrow> nat" where
  "gridCols n = (case find (\<lambda>k. n \<le> k * k) [0..<12] of Some k \<Rightarrow> k | None \<Rightarrow> 12)"

definition grid_entries :: "Canvas \<Rightarrow> nat \<Rightarrow> js_string \<Rightarrow> (Word \<times> LegacyTextChunk) list" where
  "grid_entries canvas pageNumber text =
     (let textWords = tokens text;
          cols = gridCols (length textWords);
          gridRows = (length textWords + cols - 1) div cols
      in map (\<lambda>(wordIndex, wordText).
                let row = wordIndex div cols;
                    col = wordIndex mod cols;
                    x = 0.05 + real col * 0.08;
                    y = 0.1 + real row * 0.7 / real gridRows;
                    width = 0.07;
                    height = 0.03
                in (\<lparr>w_text = wordText,
                      w_bbox = \<lparr>bbox_x = x, bbox_y = y, bbox_width = width, bbox_height = height\<rparr>,
                      w_confidence = 0.6, w_fontFamily = utf16 ''Arial'', w_fontSize = 12\<rparr>,
                    \<lparr>c_text = wordText, c_pageNumber = pageNumber,
                      c_geometry = \<lparr>g_x = x * cv_width canvas, g_y = y * cv_height canvas,
                                     g_w = width * cv_width canvas,
                                     g_h = height * cv_height canvas\<rparr>\<rparr>))
             (zip [0..<length textWords] textWords))"

definition emergency_entries :: "Canvas \<Rightarrow> nat \<Rightarrow> OcrData \<Rightarrow> (Word \<times> LegacyTextChunk) list" where
  "emergency_entries canvas pageNumber data =
     (let direct = List.map_filter (ocr_word_pixels canvas pageNumber) (od_words data)
      in if length direct = 0
         then let fromLines = concat (map (line_entries_emergency canvas pageNumber) (od_lines data))
              in if length fromLines = 0 \<and> od_text data \<noteq> []
                 then grid_entries canvas pageNumber (od_text data)
                 else fromLines
         else direct)"

definition all_lines :: "Word list list \<Rightarrow> Line list" where
  "all_lines groupedLines =
     map (\<lambda>(lineIndex, lineWords). make_line lineIndex lineWords)
       (zip [0..<length groupedLines] groupedLines)"

definition emergency_extraction :: "Canvas \<Rightarrow> nat \<Rightarrow> OcrData \<Rightarrow> extraction" where
  "emergency_extraction canvas pageNumber data =
     (let entries = emergency_entries canvas pageNumber data;
          words = map fst entries;
          lines = all_lines (groupWordsIntoLines words);
          blocks = [\<lparr>b_id = BlockId 0, b_type = Paragraph,
                     b_bbox = calculateBoundingBox (map w_bbox words),
                     b_lines = lines, b_confidence = 0.8, b_semanticRole = None,
                     b_readingOrder = 0\<rparr>]
      in (map snd entries,
          \<lparr>ir_pageNumber = pageNumber, ir_width = cv_width canvas, ir_height = cv_height canvas,
            ir_words = words, ir_lines = lines, ir_blocks = blocks,
            ir_coverage = \<lparr>cov_pdfNativeWords = 0, cov_ocrWords = length words,
                            cov_reconciledWords = length words, cov_coveragePercent = 80\<rparr>\<rparr>))"

definition catch_block :: "Canvas \<Rightarrow> nat \<Rightarrow> Services \<Rightarrow> observed" where
  "catch_block canvas pageNumber services =
     ([fallbackParams],
      case sv_recognize services fallbackParams of
        Inl e \<Rightarrow> Inl e
      | Inr data \<Rightarrow> Inr (emergency_extraction canvas pageNumber data))"

definition performGeminiExtraction :: "Canvas \<Rightarrow> nat \<Rightarrow> (js_error + TextItem list) option
                                       \<Rightarrow> Services \<Rightarrow> observed" where
  "performGeminiExtraction canvas pageNumber pdfPage services =
     (case try_block canvas pageNumber pdfPage services of
        (calls, Inr result) \<Rightarrow> (calls, Inr result)
      | (calls, Inl error) \<Rightarrow>
          (calls @ fst (catch_block canvas pageNumber services),
           snd (catch_block canvas pageNumber services)))"

section \<open>performEnhancedOCR (lines 806-926)\<close>

definition plainParams :: OcrParams where
  "plainParams = \<lparr>op_pageseg_mode = None, op_user_defined_dpi = None\<rparr>"

text \<open>The confidence of a block on the plain OCR path (line 898).\<close>

definition mean_line_confidence :: "Line list \<Rightarrow> real" where
  "mean_line_confidence blockLines =
     foldl (\<lambda>sum l. sum + foldl (\<lambda>wSum w. wSum + w_confidence w) 0 (l_words l)
                             / real (length (l_words l)))
           0 blockLines
     / real (length blockLines)"

definition plain_block :: "nat \<Rightarrow> Line list \<Rightarrow> Block" where
  "plain_block blockIndex blockLines =
     \<lparr>b_id = BlockId blockIndex, b_type = Paragraph,
      b_bbox = calculateBoundingBox (map l_bbox blockLines), b_lines = blockLines,
      b_confidence = mean_line_confidence blockLines, b_semanticRole = None,
      b_readingOrder = blockIndex\<rparr>"

definition plain_extraction :: "Canvas \<Rightarrow> nat \<Rightarrow> OcrData \<Rightarrow> extraction" where
  "plain_extraction canvas pageNumber data =
     (let entries = List.map_filter (ocr_word_pixels canvas pageNumber) (od_words data);
          words = map fst entries;
          lines = build_lines (groupWordsIntoLines words);
          groupedBlocks = groupLinesIntoBlocks lines;
          blocks = map (\<lambda>(blockIndex, blockLines). plain_block blockIndex blockLines)
                     (filter (\<lambda>(blockIndex, blockLines). length blockLines > 0)
                        (zip [0..<length groupedBlocks] groupedBlocks))
      in (map snd entries,
          \<lparr>ir_pageNumber = pageNumber, ir_width = cv_width canvas, ir_height = cv_height canvas,
            ir_words = words, ir_lines = lines, ir_blocks = blocks,
            ir_coverage = \<lparr>cov_pdfNativeWords = 0, cov_ocrWords = length words,
                            cov_reconciledWords = length words, cov_coveragePercent = 95\<rparr>\<rparr>))"

text \<open>
  With advanced processing the page is handed to \<open>performGeminiExtraction\<close> without the
  PDF page (line 812), so its third parameter is undefined there.
\<close>

definition performEnhancedOCR :: "bool \<Rightarrow> Canvas \<Rightarrow> nat \<Rightarrow> Services \<Rightarrow> observed" where
  "performEnhancedOCR enableAdvancedProcessing canvas pageNumber services =
     (if enableAdvancedProcessing then performGeminiExtraction canvas pageNumber None services
      else ([plainParams],
            case sv_recognize services plainParams of
              Inl e \<Rightarrow> Inl e
            | Inr data \<Rightarrow> Inr (plain_extraction canvas pageNumber data)))"

text \<open>
  The extraction of a page as \<^verbatim>\<open>onPageLoadSuccess\<close> starts it (line 1202). The callback
  holds the PDF page, whose \<^verbatim>\<open>getTextContent\<close> gives the items of the text layer (or
  throws), but calls \<^verbatim>\<open>performEnhancedOCR(canvas, pageNum)\<close>: the page is not passed on.
  This is the only call of \<^verbatim>\<open>performEnhancedOCR\<close>, and line 812 is the only call of
  \<^verbatim>\<open>performGeminiExtraction\<close>.
\<close>

definition page_extraction :: "bool \<Rightarrow> (js_error + TextItem list) \<Rightarrow> Canvas \<Rightarrow> nat \<Rightarrow> Services
                               \<Rightarrow> observed" where
  "page_extraction enableAdvancedProcessing page canvas pageNum services =
     performEnhancedOCR enableAdvancedProcessing canvas pageNum services"

section \<open>Observations and sample inputs for the extraction theorems\<close>

definition chunks_of :: "observed \<Rightarrow> LegacyTextChunk list" where
  "chunks_of obs = (case snd obs of Inl e \<Rightarrow> [] | Inr (chunks, page) \<Rightarrow> chunks)"

definition words_of :: "observed \<Rightarrow> Word list" where
  "words_of obs = (case snd obs of Inl e \<Rightarrow> [] | Inr (chunks, page) \<Rightarrow> ir_words page)"

definition blocks_of :: "observed \<Rightarrow> Block list" where
  "blocks_of obs = (case snd obs of Inl e \<Rightarrow> [] | Inr (chunks, page) \<Rightarrow> ir_blocks page)"

definition returned :: "observed \<Rightarrow> bool" where
  "returned obs = (case snd obs of Inl e \<Rightarrow> False | Inr result \<Rightarrow> True)"

text \<open>
  The items of the text layer that \<open>performGeminiExtraction\<close> sees: none without a PDF
  page or when \<^verbatim>\<open>getTextContent\<close> throws.
\<close>

definition text_items :: "(js_error + TextItem list) option \<Rightarrow> TextItem list" where
  "text_items pdfPage =
     (case pdfPage of None \<Rightarrow> [] | Some (Inl e) \<Rightarrow> [] | Some (Inr items) \<Rightarrow> items)"

text \<open>
  The OCR data chosen by the configuration loop gives nothing: there is none, or none
  of its words and none of its lines is usable.
\<close>

definition ocr_gives_nothing :: "Canvas \<Rightarrow> nat \<Rightarrow> OcrData option \<Rightarrow> bool" where
  "ocr_gives_nothing canvas pageNumber ocrData =
     (case ocrData of
        None \<Rightarrow> True
      | Some data \<Rightarrow>
          list_all (\<lambda>w. ocr_word_primary canvas pageNumber w = None) (od_words data)
          \<and> list_all (\<lambda>l. \<not> line_usable l) (od_lines data))"

text \<open>
  A lower-casing that agrees with \<^verbatim>\<open>toLowerCase\<close> on strings of ASCII characters, for the
  sample inputs, which hold no other character.
\<close>

definition ascii_lower :: "js_string \<Rightarrow> js_string" where
  "ascii_lower s = map (\<lambda>c. if 65 \<le> c \<and> c \<le> 90 then c + 32 else c) s"

definition sample_canvas :: Canvas where
  "sample_canvas = \<lparr>cv_width = 1000, cv_height = 1400\<rparr>"

definition no_ocr_data :: OcrData where
  "no_ocr_data = \<lparr>od_words = [], od_lines = [], od_text = []\<rparr>"

definition ocr_word_hello :: OcrWord where
  "ocr_word_hello =
     \<lparr>ow_text = utf16 ''Hello'',
      ow_bbox = Some \<lparr>ob_x0 = 500, ob_y0 = 300, ob_x1 = 600, ob_y1 = 330\<rparr>,
      ow_confidence = 50\<rparr>"

definition one_word_data :: OcrData where
  "one_word_data = \<lparr>od_words = [ocr_word_hello], od_lines = [], od_text = utf16 ''Hello''\<rparr>"

definition native_item_hello :: TextItem where
  "native_item_hello =
     \<lparr>ti_str = utf16 ''Hello'', ti_transform = [12, 0, 0, 12, 100, 700], ti_width = 30,
      ti_height = 12, ti_fontName = utf16 ''Helvetica''\<rparr>"

text \<open>The vision model answers, the text layer has one item, OCR finds no word.\<close>

definition services_native :: Services where
  "services_native =
     \<lparr>sv_extractTextWithGemini = Inr \<lparr>gr_text = utf16 ''Hello'', gr_confidence = 0.9\<rparr>,
      sv_analyzeDocumentStructure =
        Inr \<lparr>sr_elements = [\<lparr>el_type = utf16 ''paragraph'', el_content = utf16 ''Hello'',
                             el_confidence = 0.9\<rparr>],
             sr_completeText = utf16 ''Hello''\<rparr>,
      sv_recognize = (\<lambda>params. Inr no_ocr_data),
      sv_toLowerCase = ascii_lower\<rparr>"

text \<open>The vision model call fails with status 503, OCR finds one word.\<close>

definition services_vision_down :: Services where
  "services_vision_down =
     \<lparr>sv_extractTextWithGemini = Inl (RemoteError 503),
      sv_analyzeDocumentStructure = Inl (RemoteError 503),
      sv_recognize = (\<lambda>params. Inr one_word_data),
      sv_toLowerCase = ascii_lower\<rparr>"

text \<open>Every source is empty: the vision model answers with empty text, OCR finds nothing.\<close>

definition services_empty :: Services where
  "services_empty =
     \<lparr>sv_extractTextWithGemini = Inr \<lparr>gr_text = [], gr_confidence = 0.85\<rparr>,
      sv_analyzeDocumentStructure = Inr \<lparr>sr_elements = [], sr_completeText = []\<rparr>,
      sv_recognize = (\<lambda>params. Inr no_ocr_data),
      sv_toLowerCase = ascii_lower\<rparr>"

text \<open>The vision model call fails with status 503 and OCR finds nothing.\<close>

definition services_all_down :: Services where
  "services_all_down =
     \<lparr>sv_extractTextWithGemini = Inl (RemoteError 503),
      sv_analyzeDocumentStructure = Inl (RemoteError 503),
      sv_recognize = (\<lambda>params. Inr no_ocr_data),
      sv_toLowerCase = ascii_lower\<rparr>"

text \<open>
  Sample inputs for the completeness check: two recognised words, which join to ten code
  units; a structural element that was not recognised; a structural element whose
  content is a recognised word between two spaces.
\<close>

definition footer_element :: Element where
  "footer_element = \<lparr>el_type = utf16 ''footer'', el_content = utf16 ''Page 7'', el_confidence = 0.9\<rparr>"

definition padded_element :: Element where
  "padded_element = \<lparr>el_type = utf16 ''paragraph'', el_content = utf16 '' abcd '', el_confidence = 0.9\<rparr>"

definition structure_with :: "Element list \<Rightarrow> string \<Rightarrow> StructureResult" where
  "structure_with elements txt = \<lparr>sr_elements = elements, sr_completeText = utf16 txt\<rparr>"

definition some_gemini :: GeminiResult where
  "some_gemini = \<lparr>gr_text = utf16 ''abcd efghi'', gr_confidence = 0.9\<rparr>"

definition two_words :: "(Word \<times> LegacyTextChunk) list" where
  "two_words =
     [(word_at ''abcd'' 0.1 0.1 0.12 0.02,
       \<lparr>c_text = utf16 ''abcd'', c_pageNumber = 1,
        c_geometry = \<lparr>g_x = 10, g_y = 10, g_w = 12, g_h = 2\<rparr>\<rparr>),
      (word_at ''efghi'' 0.25 0.1 0.15 0.02,
       \<lparr>c_text = utf16 ''efghi'', c_pageNumber = 1,
        c_geometry = \<lparr>g_x = 25, g_y = 10, g_w = 15, g_h = 2\<rparr>\<rparr>)]"

text \<open>
  The two elements together, with a given complete text, and the arrays of the page
  before the completeness check.
\<close>

definition gap_structure :: "string \<Rightarrow> StructureResult" where
  "gap_structure txt = structure_with [footer_element, padded_element] txt"

definition gap_arrays :: "string \<Rightarrow> Arrays" where
  "gap_arrays txt = grouped_arrays ascii_lower (gap_structure txt) two_words []"

section \<open>Progress reporting of a document run (lines 50-56 and 1164-1275)\<close>

text \<open>
  The calls of \<^verbatim>\<open>onProgressUpdate\<close>, \<^verbatim>\<open>onProcessingComplete\<close> and \<^verbatim>\<open>onError\<close> are the
  observable events of a run. \<^verbatim>\<open>onDocumentLoadSuccess\<close> sets \<^verbatim>\<open>currentProcessingPage\<close> to 1;
  the component then mounts the page \<^verbatim>\<open>currentProcessingPage\<close> while it lies in
  \<^verbatim>\<open>1..numPages\<close>, and \<^verbatim>\<open>onPageLoadSuccess\<close> runs once for the mounted page. It either
  throws (the context is missing, the render or the extraction rejects), which its
  \<^verbatim>\<open>catch\<close> reports through \<^verbatim>\<open>onError\<close>, or it advances \<^verbatim>\<open>currentProcessingPage\<close>, or, on
  the last page, it completes the document. The second component of the result of
  \<open>onPageLoadSuccess\<close> is the new value of \<^verbatim>\<open>currentProcessingPage\<close>, if it is set.
\<close>

datatype event = Progress real | ProcessingComplete | Error nat

datatype page_fault = NoCanvasContext | RenderRejected | ExtractionRejected

datatype page_outcome = PageLoadError | PageLoaded "page_fault option"

definition onDocumentLoadSuccess :: "event list" where
  "onDocumentLoadSuccess = [Progress 10]"

definition progressBase :: "nat \<Rightarrow> nat \<Rightarrow> real" where
  "progressBase numPages pageNum = ((real pageNum - 1) / real numPages) * 80 + 10"

definition pageProgressStep :: "nat \<Rightarrow> real" where
  "pageProgressStep numPages = 80 / real numPages / 6"

definition onPageLoadSuccess :: "nat \<Rightarrow> nat \<Rightarrow> page_fault option \<Rightarrow> event list \<times> nat option" where
  "onPageLoadSuccess numPages currentProcessingPage fault =
     (let pageNum = currentProcessingPage;
          ev1 = [Progress (progressBase numPages pageNum + pageProgressStep numPages)]
      in if fault = Some NoCanvasContext then (ev1 @ [Error currentProcessingPage], None)
         else let ev2 = ev1 @ [Progress (progressBase numPages pageNum + pageProgressStep numPages * 2)]
         in if fault = Some RenderRejected then (ev2 @ [Error currentProcessingPage], None)
         else let ev4 = ev2 @ [Progress (progressBase numPages pageNum + pageProgressStep numPages * 3),
                               Progress (progressBase numPages pageNum + pageProgressStep numPages * 4)]
         in if fault = Some ExtractionRejected then (ev4 @ [Error currentProcessingPage], None)
         else let ev6 = ev4 @ [Progress (progressBase numPages pageNum + pageProgressStep numPages * 5),
                               Progress (progressBase numPages pageNum + pageProgressStep numPages * 6)]
         in if pageNum = numPages then (ev6 @ [ProcessingComplete, Progress 100], None)
            else (ev6, Some (pageNum + 1)))"

function render_pages :: "nat \<Rightarrow> (nat \<Rightarrow> page_outcome) \<Rightarrow> nat \<Rightarrow> event list" where
  "render_pages numPages outcome currentProcessingPage =
     (if currentProcessingPage > 0 \<and> currentProcessingPage \<le> numPages
      then (case outcome currentProcessingPage of
              PageLoadError \<Rightarrow> [Error currentProcessingPage]
            | PageLoaded fault \<Rightarrow>
                (case onPageLoadSuccess numPages currentProcessingPage fault of
                   (evs, None) \<Rightarrow> evs
                 | (evs, Some nextPage) \<Rightarrow> evs @ render_pages numPages outcome nextPage))
      else [])"
  by pat_completeness auto
termination
  by (relation "measure (\<lambda>(numPages, outcome, cur). Suc numPages - cur)")
     (auto simp: onPageLoadSuccess_def Let_def split: if_splits)

definition document_run :: "nat \<Rightarrow> (nat \<Rightarrow> page_outcome) \<Rightarrow> event list" where
  "document_run numPages outcome = onDocumentLoadSuccess @ render_pages numPages outcome 1"

fun progress_values :: "event list \<Rightarrow> real list" where
  "progress_values [] = []"
| "progress_values (Progress v # evs) = v # progress_values evs"
| "progress_values (_ # evs) = progress_values evs"

definition before_complete :: "event list \<Rightarrow> event list" where
  "before_complete evs = takeWhile (\<lambda>e. e \<noteq> ProcessingComplete) evs"

definition all_pages_ok :: "nat \<Rightarrow> page_outcome" where
  "all_pages_ok p = PageLoaded None"

declare render_pages.simps [simp del]

definition page_values :: "nat \<Rightarrow> nat \<Rightarrow> real list" where
  "page_values n cur = map (\<lambda>k. progressBase n cur + pageProgressStep n * real k) [1, 2, 3, 4, 5, 6]"

section \<open>Verification of the grouping engine\<close>

lemmas fixture_defs = word_at_def tie_a_def tie_b_def tie_c_def row_p_def row_q_def row_r_def
  tall_a_def small_b_def tall_c_def small_d_def

lemma Math_min_Min: "vs \<noteq> [] \<Longrightarrow> Math_min vs = Min (set vs)"
  using Min.set_eq_fold [of "hd vs" "tl vs"] by (cases vs) simp_all

lemma Math_max_Max: "vs \<noteq> [] \<Longrightarrow> Math_max vs = Max (set vs)"
  using Max.set_eq_fold [of "hd vs" "tl vs"] by (cases vs) simp_all

lemma mset_insort_cmp: "mset (insort_cmp cmp a bs) = add_mset a (mset bs)"
  by (induction bs) auto

lemma mset_js_sort: "mset (js_sort cmp as) = mset as"
  by (induction as) (auto simp: mset_insort_cmp)

lemma js_sort_Nil_iff: "js_sort cmp as = [] \<longleftrightarrow> as = []"
  by (metis mset_js_sort mset_zero_iff)

lemma concat_scan_words:
  "concat (scan_words lines cur rest) = concat lines @ cur @ rest"
  by (induction lines cur rest rule: scan_words.induct) (auto simp: Let_def)

lemma nonempty_scan_words:
  "cur \<noteq> [] \<Longrightarrow> [] \<notin> set lines \<Longrightarrow> [] \<notin> set (scan_words lines cur rest)"
  by (induction lines cur rest rule: scan_words.induct) (auto simp: Let_def)

lemma concat_scan_lines:
  "concat (scan_lines blocks cur rest) = concat blocks @ cur @ rest"
  by (induction blocks cur rest rule: scan_lines.induct) (auto simp: Let_def)

lemma nonempty_scan_lines:
  "cur \<noteq> [] \<Longrightarrow> [] \<notin> set blocks \<Longrightarrow> [] \<notin> set (scan_lines blocks cur rest)"
  by (induction blocks cur rest rule: scan_lines.induct) (auto simp: Let_def)

lemma concat_groupWordsIntoLines:
  "concat (groupWordsIntoLines words) = js_sort word_cmp words"
  by (cases "js_sort word_cmp words")
     (auto simp: groupWordsIntoLines_def concat_scan_words Let_def js_sort_Nil_iff)

lemma scan_words_step:
  "scan_words lines cur (w # rest) =
     (if near_y (last cur) w then scan_words lines (cur @ [w]) rest
      else scan_words (lines @ [cur]) [w] rest)"
  by (simp add: near_y_def Let_def)

lemma scan_words_shape:
  assumes "cur \<noteq> []" "\<forall>g\<in>set lines. successively near_y g" "successively near_y cur"
    and "successively (\<lambda>g h. \<not> near_y (last g) (hd h)) (lines @ [cur])"
  shows "(\<forall>g\<in>set (scan_words lines cur rest). successively near_y g)
       \<and> successively (\<lambda>g h. \<not> near_y (last g) (hd h)) (scan_words lines cur rest)"
  using assms
proof (induction rest arbitrary: lines cur)
  case Nil
  then show ?case by simp
next
  case (Cons w rest)
  show ?case
  proof (cases "near_y (last cur) w")
    case True
    have 1: "successively near_y (cur @ [w])"
      using Cons.prems True by (simp add: successively_append_iff)
    have 2: "successively (\<lambda>g h. \<not> near_y (last g) (hd h)) (lines @ [cur @ [w]])"
      using Cons.prems by (simp add: successively_append_iff)
    show ?thesis
      using Cons.IH [of "cur @ [w]" lines] Cons.prems True 1 2
      by (simp only: scan_words_step if_True) simp
  next
    case False
    have 2: "successively (\<lambda>g h. \<not> near_y (last g) (hd h)) ((lines @ [cur]) @ [[w]])"
      using Cons.prems False by (simp add: successively_append_iff)
    show ?thesis
      using Cons.IH [of "[w]" "lines @ [cur]"] Cons.prems False 2
      by (simp only: scan_words_step if_False) simp
  qed
qed

lemma scan_words_singletons:
  "distinct (c # rest) \<Longrightarrow> \<forall>a\<in>set (c # rest). \<forall>b\<in>set (c # rest). a \<noteq> b \<longrightarrow> \<not> near_y a b
   \<Longrightarrow> scan_words lines [c] rest = lines @ [c] # map (\<lambda>w. [w]) rest"
proof (induction rest arbitrary: lines c)
  case Nil
  then show ?case by simp
next
  case (Cons w rest)
  have far: "\<not> near_y c w" using Cons.prems by auto
  have d: "distinct (w # rest)" using Cons.prems by simp
  have p: "\<forall>a\<in>set (w # rest). \<forall>b\<in>set (w # rest). a \<noteq> b \<longrightarrow> \<not> near_y a b"
    using Cons.prems(2) by simp
  show ?case
    using Cons.IH [OF d p, of "lines @ [[c]]"] far
    by (simp only: scan_words_step last.simps) simp
qed

lemma word_cmp_flip: "word_cmp b a = - word_cmp a b"
  by (simp add: word_cmp_def Let_def abs_minus_commute)

lemma set_insort_cmp: "set (insort_cmp cmp a bs) = insert a (set bs)"
  by (induction bs) auto

lemma set_js_sort: "set (js_sort cmp as) = set as"
  by (induction as) (auto simp: set_insort_cmp)

lemma sorted_insort_cmp:
  assumes flip: "\<And>u v. cmp v u = - cmp u v"
    and tr: "\<And>u v w. u \<in> S \<Longrightarrow> v \<in> S \<Longrightarrow> w \<in> S \<Longrightarrow> cmp u v \<le> 0 \<Longrightarrow> cmp v w \<le> 0 \<Longrightarrow> cmp u w \<le> 0"
  shows "insert a (set bs) \<subseteq> S \<Longrightarrow> sorted_wrt (\<lambda>u v. cmp u v \<le> 0) bs
         \<Longrightarrow> sorted_wrt (\<lambda>u v. cmp u v \<le> 0) (insort_cmp cmp a bs)"
proof (induction bs)
  case Nil
  then show ?case by simp
next
  case (Cons b bs)
  show ?case
  proof (cases "cmp a b \<le> 0")
    case True
    have "\<forall>c\<in>set bs. cmp a c \<le> 0"
    proof
      fix c assume c: "c \<in> set bs"
      then have "cmp b c \<le> 0" using Cons.prems(2) by simp
      then show "cmp a c \<le> 0" using tr [of a b c] True c Cons.prems(1) by auto
    qed
    then show ?thesis using True Cons.prems(2) by simp
  next
    case False
    then have ba: "cmp b a \<le> 0" using flip [of a b] by simp
    have "sorted_wrt (\<lambda>u v. cmp u v \<le> 0) (insort_cmp cmp a bs)"
      using Cons.IH Cons.prems by simp
    then show ?thesis using False ba Cons.prems(2) by (simp add: set_insort_cmp)
  qed
qed

lemma sorted_js_sort:
  assumes flip: "\<And>u v. cmp v u = - cmp u v"
    and tr: "\<And>u v w. u \<in> S \<Longrightarrow> v \<in> S \<Longrightarrow> w \<in> S \<Longrightarrow> cmp u v \<le> 0 \<Longrightarrow> cmp v w \<le> 0 \<Longrightarrow> cmp u w \<le> 0"
  shows "set as \<subseteq> S \<Longrightarrow> sorted_wrt (\<lambda>u v. cmp u v \<le> 0) (js_sort cmp as)"
proof (induction as)
  case Nil
  then show ?case by simp
next
  case (Cons a as)
  have "sorted_wrt (\<lambda>u v. cmp u v \<le> 0) (js_sort cmp as)" using Cons by simp
  moreover have "insert a (set (js_sort cmp as)) \<subseteq> S" using Cons.prems by (simp add: set_js_sort)
  ultimately show ?case using sorted_insort_cmp [where cmp = cmp and S = S and a = a and bs = "js_sort cmp as", OF flip tr] by simp
qed

lemma sorted_wrt_unique:
  assumes anti: "\<And>u v. u \<in> S \<Longrightarrow> v \<in> S \<Longrightarrow> R u v \<Longrightarrow> R v u \<Longrightarrow> u = v"
  shows "sorted_wrt R xs \<Longrightarrow> sorted_wrt R ys \<Longrightarrow> mset xs = mset ys \<Longrightarrow> set xs \<subseteq> S \<Longrightarrow> xs = ys"
proof (induction xs arbitrary: ys)
  case Nil
  then show ?case by simp
next
  case (Cons x xs)
  then obtain y ys' where ys: "ys = y # ys'" by (cases ys) auto
  have sets: "set (x # xs) = set (y # ys')" using Cons.prems(3) ys by (metis mset_eq_setD)
  have xy: "x = y"
  proof (rule ccontr)
    assume ne: "x \<noteq> y"
    have "x \<in> set ys'" using sets ne by auto
    then have 1: "R y x" using Cons.prems(2) ys by simp
    have "y \<in> set xs" using sets ne by auto
    then have 2: "R x y" using Cons.prems(1) by simp
    have "x \<in> S" "y \<in> S" using Cons.prems(4) sets by auto
    then show False using anti 1 2 ne by blast
  qed
  have "xs = ys'"
    using Cons.IH [of ys'] Cons.prems ys xy by simp
  then show ?case using ys xy by simp
qed

lemma js_sort_word_cmp_perm:
  assumes tr: "\<forall>a\<in>set ws. \<forall>b\<in>set ws. \<forall>c\<in>set ws.
                 word_cmp a b \<le> 0 \<and> word_cmp b c \<le> 0 \<longrightarrow> word_cmp a c \<le> 0"
    and noties: "\<forall>a\<in>set ws. \<forall>b\<in>set ws. word_cmp a b = 0 \<longrightarrow> a = b"
    and perm: "mset ws' = mset ws"
  shows "js_sort word_cmp ws' = js_sort word_cmp ws"
proof -
  have sets: "set ws' = set ws" using perm by (metis mset_eq_setD)
  have tr': "\<And>u v w. u \<in> set ws \<Longrightarrow> v \<in> set ws \<Longrightarrow> w \<in> set ws \<Longrightarrow> word_cmp u v \<le> 0
               \<Longrightarrow> word_cmp v w \<le> 0 \<Longrightarrow> word_cmp u w \<le> 0"
    using tr by blast
  have s1: "sorted_wrt (\<lambda>u v. word_cmp u v \<le> 0) (js_sort word_cmp ws')"
    using sorted_js_sort [where cmp = word_cmp and S = "set ws" and as = ws', OF word_cmp_flip tr'] sets by simp
  have s2: "sorted_wrt (\<lambda>u v. word_cmp u v \<le> 0) (js_sort word_cmp ws)"
    using sorted_js_sort [where cmp = word_cmp and S = "set ws" and as = ws, OF word_cmp_flip tr'] by simp
  have anti: "\<And>u v. u \<in> set ws \<Longrightarrow> v \<in> set ws \<Longrightarrow> word_cmp u v \<le> 0 \<Longrightarrow> word_cmp v u \<le> 0 \<Longrightarrow> u = v"
  proof -
    fix u v assume h: "u \<in> set ws" "v \<in> set ws" "word_cmp u v \<le> 0" "word_cmp v u \<le> 0"
    have "word_cmp u v = 0" using h(3,4) word_cmp_flip [of u v] by simp
    then show "u = v" using noties h(1,2) by blast
  qed
  show ?thesis
    using sorted_wrt_unique [where S = "set ws" and R = "\<lambda>u v. word_cmp u v \<le> 0", OF anti s1 s2]
    by (simp add: mset_js_sort perm set_js_sort sets)
qed

subsection \<open>calculateBoundingBox\<close>

text \<open>
  Claim C7. For a non-empty list of boxes \<open>calculateBoundingBox\<close> returns the box with
  \<open>x = min x\<close>, \<open>y = min y\<close>, \<open>width = max (x + width) - min x\<close> and
  \<open>height = max (y + height) - min y\<close>; that box covers every input and is covered by
  every box that covers all inputs. For the empty list it returns the zero box.
\<close>

theorem calculateBoundingBox_minimal_cover:
  "calculateBoundingBox [] = \<lparr>bbox_x = 0, bbox_y = 0, bbox_width = 0, bbox_height = 0\<rparr>
   \<and> (bboxes \<noteq> [] \<longrightarrow>
        bbox_x (calculateBoundingBox bboxes) = Min (bbox_x ` set bboxes)
      \<and> bbox_y (calculateBoundingBox bboxes) = Min (bbox_y ` set bboxes)
      \<and> bbox_width (calculateBoundingBox bboxes)
          = Max ((\<lambda>b. bbox_x b + bbox_width b) ` set bboxes) - Min (bbox_x ` set bboxes)
      \<and> bbox_height (calculateBoundingBox bboxes)
          = Max ((\<lambda>b. bbox_y b + bbox_height b) ` set bboxes) - Min (bbox_y ` set bboxes)
      \<and> (\<forall>b\<in>set bboxes. covers (calculateBoundingBox bboxes) b)
      \<and> (\<forall>c. (\<forall>b\<in>set bboxes. covers c b) \<longrightarrow> covers c (calculateBoundingBox bboxes)))"
proof -
  have z: "calculateBoundingBox [] = \<lparr>bbox_x = 0, bbox_y = 0, bbox_width = 0, bbox_height = 0\<rparr>"
    by (simp add: calculateBoundingBox_def)
  have f: "bbox_x (calculateBoundingBox bboxes) = Min (bbox_x ` set bboxes)
      \<and> bbox_y (calculateBoundingBox bboxes) = Min (bbox_y ` set bboxes)
      \<and> bbox_width (calculateBoundingBox bboxes)
          = Max ((\<lambda>b. bbox_x b + bbox_width b) ` set bboxes) - Min (bbox_x ` set bboxes)
      \<and> bbox_height (calculateBoundingBox bboxes)
          = Max ((\<lambda>b. bbox_y b + bbox_height b) ` set bboxes) - Min (bbox_y ` set bboxes)"
    if "bboxes \<noteq> []"
    using that by (simp add: calculateBoundingBox_def Let_def Math_min_Min Math_max_Max)
  have cov: "\<forall>b\<in>set bboxes. covers (calculateBoundingBox bboxes) b" if ne: "bboxes \<noteq> []"
  proof
    fix b assume b: "b \<in> set bboxes"
    have "Min (bbox_x ` set bboxes) \<le> bbox_x b" "Min (bbox_y ` set bboxes) \<le> bbox_y b"
      "bbox_x b + bbox_width b \<le> Max ((\<lambda>b. bbox_x b + bbox_width b) ` set bboxes)"
      "bbox_y b + bbox_height b \<le> Max ((\<lambda>b. bbox_y b + bbox_height b) ` set bboxes)"
      using b by simp_all
    then show "covers (calculateBoundingBox bboxes) b"
      using f [OF ne] by (simp add: covers_def)
  qed
  have mini: "covers c (calculateBoundingBox bboxes)"
    if ne: "bboxes \<noteq> []" and c: "\<forall>b\<in>set bboxes. covers c b" for c
  proof -
    have "bbox_x c \<le> Min (bbox_x ` set bboxes)" "bbox_y c \<le> Min (bbox_y ` set bboxes)"
      "Max ((\<lambda>b. bbox_x b + bbox_width b) ` set bboxes) \<le> bbox_x c + bbox_width c"
      "Max ((\<lambda>b. bbox_y b + bbox_height b) ` set bboxes) \<le> bbox_y c + bbox_height c"
      using ne c by (simp_all add: covers_def)
    then show ?thesis using f [OF ne] by (simp add: covers_def)
  qed
  from z f cov mini show ?thesis by blast
qed

text \<open>
  Claim C7, at a concrete input: the bounding box of two sample boxes.
\<close>

theorem calculateBoundingBox_minimal_cover_witness:
  "[box_a, box_b] \<noteq> []
   \<and> calculateBoundingBox [box_a, box_b]
       = \<lparr>bbox_x = 0.1, bbox_y = 0.2, bbox_width = 0.5, bbox_height = 0.35\<rparr>
   \<and> bbox_x (calculateBoundingBox [box_a, box_b]) = Min (bbox_x ` set [box_a, box_b])
   \<and> covers (calculateBoundingBox [box_a, box_b]) box_b"
proof -
  have v: "calculateBoundingBox [box_a, box_b]
       = \<lparr>bbox_x = 0.1, bbox_y = 0.2, bbox_width = 0.5, bbox_height = 0.35\<rparr>"
    by (simp add: calculateBoundingBox_def Let_def box_a_def box_b_def)
  have ne: "[box_a, box_b] \<noteq> []" by simp
  show ?thesis
    using calculateBoundingBox_minimal_cover [of "[box_a, box_b]"] v ne by simp
qed

subsection \<open>Grouping is a partition\<close>

text \<open>
  Claim C10. \<open>groupWordsIntoLines\<close> returns non-empty groups whose concatenation holds
  exactly the input words, each as often as the input has it; \<open>groupLinesIntoBlocks\<close>
  returns non-empty groups whose concatenation is the input list of lines, in order.
\<close>

theorem grouping_partitions:
  "mset (concat (groupWordsIntoLines words)) = mset words
   \<and> [] \<notin> set (groupWordsIntoLines words)
   \<and> concat (groupLinesIntoBlocks lines) = lines
   \<and> [] \<notin> set (groupLinesIntoBlocks lines)"
proof -
  have a: "mset (concat (groupWordsIntoLines words)) = mset words"
    by (simp add: concat_groupWordsIntoLines mset_js_sort)
  have b: "[] \<notin> set (groupWordsIntoLines words)"
    by (simp add: groupWordsIntoLines_def Let_def nonempty_scan_words)
  have c: "concat (groupLinesIntoBlocks lines) = lines"
    by (cases lines) (simp_all add: groupLinesIntoBlocks_def concat_scan_lines)
  have d: "[] \<notin> set (groupLinesIntoBlocks lines)"
    by (simp add: groupLinesIntoBlocks_def nonempty_scan_lines)
  from a b c d show ?thesis by blast
qed

subsection \<open>Where a line ends\<close>

text \<open>
  Claim C5 as stated compares vertical centres. The code compares the \<^verbatim>\<open>bbox.y\<close>
  fields: two words whose centres are 0.035 apart share a line, and two words whose
  centres coincide are split.
\<close>

theorem line_join_not_by_center_counterexample:
  "0.02 \<le> \<bar>center_y small_b - center_y tall_a\<bar>
   \<and> groupWordsIntoLines [tall_a, small_b] = [[tall_a, small_b]]
   \<and> \<bar>center_y small_d - center_y tall_c\<bar> < 0.02
   \<and> groupWordsIntoLines [tall_c, small_d] = [[tall_c], [small_d]]"
  by (simp add: groupWordsIntoLines_def word_cmp_def Let_def center_y_def fixture_defs)

text \<open>
  Claim C5, amended. The lines returned by \<open>groupWordsIntoLines\<close> cut the sorted word
  array into non-empty consecutive pieces; inside a piece every word is closer than 0.02
  in \<^verbatim>\<open>bbox.y\<close> to the word before it, and the first word of a piece is at least 0.02 away
  from the last word of the piece before. Hence a word joins the current line exactly when
  its \<^verbatim>\<open>bbox.y\<close> differs from that of the line's last word by less than 0.02, and words
  that are pairwise at least 0.02 apart in \<^verbatim>\<open>bbox.y\<close> give one line per word.
\<close>

theorem groupWordsIntoLines_line_breaks:
  "concat (groupWordsIntoLines words) = js_sort word_cmp words
   \<and> [] \<notin> set (groupWordsIntoLines words)
   \<and> (\<forall>g\<in>set (groupWordsIntoLines words). successively near_y g)
   \<and> successively (\<lambda>g h. \<not> near_y (last g) (hd h)) (groupWordsIntoLines words)
   \<and> ((\<forall>i<length words. \<forall>j<length words. i \<noteq> j \<longrightarrow>
          0.02 \<le> \<bar>bbox_y (w_bbox (words ! i)) - bbox_y (w_bbox (words ! j))\<bar>)
        \<longrightarrow> groupWordsIntoLines words = map (\<lambda>w. [w]) (js_sort word_cmp words))"
proof -
  have a: "concat (groupWordsIntoLines words) = js_sort word_cmp words"
    by (rule concat_groupWordsIntoLines)
  have b: "[] \<notin> set (groupWordsIntoLines words)"
    by (simp add: groupWordsIntoLines_def Let_def nonempty_scan_words)
  have c: "(\<forall>g\<in>set (groupWordsIntoLines words). successively near_y g)
     \<and> successively (\<lambda>g h. \<not> near_y (last g) (hd h)) (groupWordsIntoLines words)"
  proof (cases "words = []")
    case True
    then show ?thesis by (simp add: groupWordsIntoLines_def)
  next
    case False
    then show ?thesis
      using scan_words_shape [of "[hd (js_sort word_cmp words)]" "[]" "tl (js_sort word_cmp words)"]
      by (simp add: groupWordsIntoLines_def Let_def)
  qed
  have d: "groupWordsIntoLines words = map (\<lambda>w. [w]) (js_sort word_cmp words)"
    if far: "\<forall>i<length words. \<forall>j<length words. i \<noteq> j \<longrightarrow>
          0.02 \<le> \<bar>bbox_y (w_bbox (words ! i)) - bbox_y (w_bbox (words ! j))\<bar>"
  proof (cases "js_sort word_cmp words")
    case Nil
    then show ?thesis by (simp add: groupWordsIntoLines_def js_sort_Nil_iff)
  next
    case (Cons s rest)
    have dist: "distinct words"
      unfolding distinct_conv_nth
    proof (intro allI impI)
      fix i j assume "i < length words" "j < length words" "i \<noteq> j"
      then have "0.02 \<le> \<bar>bbox_y (w_bbox (words ! i)) - bbox_y (w_bbox (words ! j))\<bar>"
        using far by blast
      then show "words ! i \<noteq> words ! j" by auto
    qed
    have pw: "\<forall>u\<in>set words. \<forall>v\<in>set words. u \<noteq> v \<longrightarrow> \<not> near_y u v"
    proof (intro ballI impI)
      fix u v assume "u \<in> set words" "v \<in> set words" "u \<noteq> v"
      then obtain i j where "i < length words" "j < length words" "u = words ! i" "v = words ! j" "i \<noteq> j"
        by (metis in_set_conv_nth)
      then have "0.02 \<le> \<bar>bbox_y (w_bbox v) - bbox_y (w_bbox u)\<bar>"
        using far by metis
      then show "\<not> near_y u v" by (simp add: near_y_def)
    qed
    have dist': "distinct (s # rest)"
      using dist Cons by (metis mset_js_sort mset_eq_imp_distinct_iff)
    have pw': "\<forall>u\<in>set (s # rest). \<forall>v\<in>set (s # rest). u \<noteq> v \<longrightarrow> \<not> near_y u v"
      using pw Cons by (metis set_js_sort)
    have ne: "words \<noteq> []" using Cons js_sort_Nil_iff [of word_cmp words] by auto
    show ?thesis
      using scan_words_singletons [OF dist' pw', of "[]"] Cons ne
      by (simp add: groupWordsIntoLines_def Let_def)
  qed
  from a b c d show ?thesis by blast
qed

text \<open>
  Claim C5, amended, at concrete inputs: two words 0.1 apart give two lines; with a third
  word in the first row, the first row is one line of two words.
\<close>

theorem groupWordsIntoLines_line_breaks_witness:
  "groupWordsIntoLines [row_r, row_p] = [[row_p], [row_r]]
   \<and> successively (\<lambda>g h. \<not> near_y (last g) (hd h)) (groupWordsIntoLines [row_r, row_p, row_q])
   \<and> groupWordsIntoLines [row_r, row_p, row_q] = [[row_p, row_q], [row_r]]"
proof -
  have far: "\<forall>i<length [row_r, row_p]. \<forall>j<length [row_r, row_p]. i \<noteq> j \<longrightarrow>
          0.02 \<le> \<bar>bbox_y (w_bbox ([row_r, row_p] ! i)) - bbox_y (w_bbox ([row_r, row_p] ! j))\<bar>"
    by (simp add: less_Suc_eq fixture_defs)
  have s: "js_sort word_cmp [row_r, row_p] = [row_p, row_r]"
    by (simp add: word_cmp_def Let_def fixture_defs)
  have g: "groupWordsIntoLines [row_r, row_p, row_q] = [[row_p, row_q], [row_r]]"
    by (simp add: groupWordsIntoLines_def word_cmp_def Let_def fixture_defs)
  have one: "groupWordsIntoLines [row_r, row_p] = [[row_p], [row_r]]"
    using groupWordsIntoLines_line_breaks [of "[row_r, row_p]"] far s by simp
  have brk: "successively (\<lambda>g h. \<not> near_y (last g) (hd h)) (groupWordsIntoLines [row_r, row_p, row_q])"
    using groupWordsIntoLines_line_breaks [of "[row_r, row_p, row_q]"] by blast
  show ?thesis by (intro conjI one brk g)
qed

subsection \<open>Dependence on the order of the input\<close>

text \<open>
  Claim C4 as stated fails. The comparator returns 0 for two words with equal
  \<^verbatim>\<open>bbox.x\<close> whose \<^verbatim>\<open>bbox.y\<close> differ by less than 0.01; the stable sort keeps them in
  input order, and the scan compares with the last word of the line only. The same three
  words give one line in one order and two lines in the other.
\<close>

theorem grouping_order_dependent_counterexample:
  "mset [tie_b, tie_a, tie_c] = mset [tie_a, tie_b, tie_c]
   \<and> groupWordsIntoLines [tie_a, tie_b, tie_c] = [[tie_a, tie_b, tie_c]]
   \<and> groupWordsIntoLines [tie_b, tie_a, tie_c] = [[tie_b, tie_a], [tie_c]]
   \<and> set (map set (groupWordsIntoLines [tie_b, tie_a, tie_c])) \<noteq> set (map set (groupWordsIntoLines [tie_a, tie_b, tie_c]))"
proof -
  have 1: "groupWordsIntoLines [tie_a, tie_b, tie_c] = [[tie_a, tie_b, tie_c]]"
    by (simp add: groupWordsIntoLines_def word_cmp_def Let_def fixture_defs)
  have 2: "groupWordsIntoLines [tie_b, tie_a, tie_c] = [[tie_b, tie_a], [tie_c]]"
    by (simp add: groupWordsIntoLines_def word_cmp_def Let_def fixture_defs)
  have 3: "{tie_b, tie_a} \<noteq> {tie_a, tie_b, tie_c}"
  proof
    assume "{tie_b, tie_a} = {tie_a, tie_b, tie_c}"
    then have "tie_c \<in> {tie_b, tie_a}" by blast
    then show False by (simp add: fixture_defs)
  qed
  have 4: "{tie_c} \<noteq> {tie_a, tie_b, tie_c}"
  proof
    assume "{tie_c} = {tie_a, tie_b, tie_c}"
    then have "tie_a \<in> {tie_c}" by blast
    then show False by (simp add: fixture_defs)
  qed
  show ?thesis using 3 4 by (simp add: 1 2)
qed

text \<open>
  Claim C4, amended. If the comparator is transitive on the words and returns 0 only for
  equal words, then every reordering of the input array gives the same lines and the same
  blocks.
\<close>

theorem grouping_permutation_invariant:
  assumes "\<forall>a\<in>set ws. \<forall>b\<in>set ws. \<forall>c\<in>set ws.
             word_cmp a b \<le> 0 \<and> word_cmp b c \<le> 0 \<longrightarrow> word_cmp a c \<le> 0"
    and "\<forall>a\<in>set ws. \<forall>b\<in>set ws. word_cmp a b = 0 \<longrightarrow> a = b"
    and "mset ws' = mset ws"
  shows "groupWordsIntoLines ws' = groupWordsIntoLines ws
       \<and> groupLinesIntoBlocks (build_lines (groupWordsIntoLines ws'))
         = groupLinesIntoBlocks (build_lines (groupWordsIntoLines ws))"
proof -
  have "js_sort word_cmp ws' = js_sort word_cmp ws"
    using assms by (rule js_sort_word_cmp_perm)
  moreover have "ws' = [] \<longleftrightarrow> ws = []" using assms(3) by (metis mset_zero_iff)
  ultimately have "groupWordsIntoLines ws' = groupWordsIntoLines ws"
    by (simp add: groupWordsIntoLines_def)
  then show ?thesis by simp
qed

text \<open>
  Claim C4, amended, at a concrete input: three words in two rows, in two orders.
\<close>

theorem grouping_permutation_invariant_witness:
  "mset [row_r, row_q, row_p] = mset [row_p, row_q, row_r]
   \<and> groupWordsIntoLines [row_r, row_q, row_p] = groupWordsIntoLines [row_p, row_q, row_r]
   \<and> groupLinesIntoBlocks (build_lines (groupWordsIntoLines [row_r, row_q, row_p]))
         = groupLinesIntoBlocks (build_lines (groupWordsIntoLines [row_p, row_q, row_r]))
   \<and> groupWordsIntoLines [row_r, row_q, row_p] = [[row_p, row_q], [row_r]]"
proof -
  have h1: "\<forall>a\<in>set [row_p, row_q, row_r]. \<forall>b\<in>set [row_p, row_q, row_r]. \<forall>c\<in>set [row_p, row_q, row_r].
             word_cmp a b \<le> 0 \<and> word_cmp b c \<le> 0 \<longrightarrow> word_cmp a c \<le> 0"
    by (simp add: word_cmp_def Let_def fixture_defs)
  have h2: "\<forall>a\<in>set [row_p, row_q, row_r]. \<forall>b\<in>set [row_p, row_q, row_r]. word_cmp a b = 0 \<longrightarrow> a = b"
    by (simp add: word_cmp_def Let_def fixture_defs)
  have h3: "mset [row_r, row_q, row_p] = mset [row_p, row_q, row_r]"
    by (simp add: add_mset_commute)
  have g: "groupWordsIntoLines [row_r, row_q, row_p] = [[row_p, row_q], [row_r]]"
    by (simp add: groupWordsIntoLines_def word_cmp_def Let_def fixture_defs)
  note c = grouping_permutation_invariant [OF h1 h2 h3]
  show ?thesis
    by (intro conjI h3 g conjunct1 [OF c] conjunct2 [OF c])
qed

section \<open>Facts about the model\<close>

text \<open>
  \<open>gridCols\<close> is \<^verbatim>\<open>Math.min(12, Math.ceil(Math.sqrt(n)))\<close>, and \<open>str_includes\<close> is the
  substring test (see \<open>str_includes_iff\<close> below).
\<close>

lemma le_square_iff_ceiling_sqrt: "n \<le> k * k \<longleftrightarrow> nat \<lceil>sqrt (real n)\<rceil> \<le> k"
proof -
  have "n \<le> k * k \<longleftrightarrow> real n \<le> (real k)\<^sup>2"
    by (metis of_nat_le_iff of_nat_mult power2_eq_square)
  also have "\<dots> \<longleftrightarrow> sqrt (real n) \<le> real k"
    by (metis of_nat_0_le_iff real_sqrt_le_iff real_sqrt_abs abs_of_nonneg)
  also have "\<dots> \<longleftrightarrow> \<lceil>sqrt (real n)\<rceil> \<le> int k"
    by (simp add: ceiling_le_iff)
  also have "\<dots> \<longleftrightarrow> nat \<lceil>sqrt (real n)\<rceil> \<le> k"
    by (simp add: nat_le_iff)
  finally show ?thesis .
qed

lemma find_first_at_least:
  "find (\<lambda>k. c \<le> k) [0..<m] = (if c < m then Some c else None)"
proof (cases "c < m")
  case True
  have "find (\<lambda>k. c \<le> k) [0..<m] = Some c"
    unfolding find_Some_iff
    using True by (intro exI [of _ c]) auto
  then show ?thesis using True by simp
next
  case False
  then have "find (\<lambda>k. c \<le> k) [0..<m] = None"
    by (auto simp: find_None_iff)
  then show ?thesis using False by simp
qed

lemma gridCols_is_min_ceiling_sqrt: "gridCols n = min 12 (nat \<lceil>sqrt (real n)\<rceil>)"
proof -
  have "gridCols n = (case find (\<lambda>k. nat \<lceil>sqrt (real n)\<rceil> \<le> k) [0..<12] of
                        Some k \<Rightarrow> k | None \<Rightarrow> 12)"
    unfolding gridCols_def le_square_iff_ceiling_sqrt ..
  then show ?thesis
    unfolding find_first_at_least by (simp add: min_def)
qed

section \<open>Verification of the extraction\<close>

subsection \<open>Auxiliary facts\<close>

lemma groupWordsIntoLines_single: "groupWordsIntoLines [w] = [[w]]"
  by (simp add: groupWordsIntoLines_def)

lemma trim_hello: "trim (utf16 ''Hello'') = utf16 ''Hello''"
  by (simp add: trim_def is_space_def utf16_def)

lemma utf16_Nil_iff: "utf16 s = [] \<longleftrightarrow> s = []"
  by (simp add: utf16_def)

lemma emergency_one_word:
  "emergency_entries sample_canvas pn one_word_data =
     [(\<lparr>w_text = utf16 ''Hello'',
        w_bbox = \<lparr>bbox_x = 1/2, bbox_y = 3/14, bbox_width = 1/10, bbox_height = 3/140\<rparr>,
        w_confidence = 1/2, w_fontFamily = utf16 ''Arial'', w_fontSize = 12\<rparr>,
       \<lparr>c_text = utf16 ''Hello'', c_pageNumber = pn,
        c_geometry = \<lparr>g_x = 500, g_y = 300, g_w = 100, g_h = 30\<rparr>\<rparr>)]"
  by (simp add: emergency_entries_def one_word_data_def ocr_word_hello_def ocr_word_pixels_def
      sample_canvas_def trim_hello utf16_Nil_iff)

lemma plain_one_word:
  "List.map_filter (ocr_word_pixels sample_canvas pn) (od_words one_word_data) =
     [(\<lparr>w_text = utf16 ''Hello'',
        w_bbox = \<lparr>bbox_x = 1/2, bbox_y = 3/14, bbox_width = 1/10, bbox_height = 3/140\<rparr>,
        w_confidence = 1/2, w_fontFamily = utf16 ''Arial'', w_fontSize = 12\<rparr>,
       \<lparr>c_text = utf16 ''Hello'', c_pageNumber = pn,
        c_geometry = \<lparr>g_x = 500, g_y = 300, g_w = 100, g_h = 30\<rparr>\<rparr>)]"
  by (simp add: one_word_data_def ocr_word_hello_def ocr_word_pixels_def
      sample_canvas_def trim_hello utf16_Nil_iff)

lemma vision_down_obs:
  "performGeminiExtraction sample_canvas pn None services_vision_down
     = ([fallbackParams], Inr (emergency_extraction sample_canvas pn one_word_data))"
  by (simp add: performGeminiExtraction_def try_block_def catch_block_def services_vision_down_def)

lemma native_items_blank:
  "list_all (\<lambda>item. trim (ti_str item) = []) items \<Longrightarrow> native_items canvas items words = Inr words"
  by (induction items) auto

lemma native_items_throw:
  "\<not> list_all (\<lambda>item. trim (ti_str item) = []) items
   \<Longrightarrow> native_items canvas items words = Inl (ReferenceError ''w'')"
proof (induction items)
  case Nil
  then show ?case by simp
next
  case (Cons item items)
  have "trim [] = []" by (simp add: trim_def)
  then show ?case using Cons by (auto simp: Let_def)
qed

lemma try_configs_none:
  "try_configs (\<lambda>params. Inr no_ocr_data) ocrConfigs = (ocrConfigs, None)"
  by (simp add: ocrConfigs_def no_ocr_data_def)

lemma emergency_no_data: "emergency_entries canvas pn no_ocr_data = []"
  by (simp add: emergency_entries_def no_ocr_data_def)

lemma a_words_grouped: "a_words (grouped_arrays lower s entries placeholder) = map fst entries"
  by (simp add: grouped_arrays_def Let_def)

lemma a_chunks_grouped:
  "a_legacyChunks (grouped_arrays lower s entries placeholder) = map snd entries @ placeholder"
  by (simp add: grouped_arrays_def Let_def)

lemma tokens_hello: "tokens (utf16 ''Hello'') = [utf16 ''Hello'']"
  by (simp add: tokens_def split_ws_def trim_def is_space_def utf16_def)

lemma try_block_without_gap:
  assumes "sv_extractTextWithGemini services = Inr g"
    and "sv_analyzeDocumentStructure services = Inr s"
    and "select_words canvas pn (text_items pdfPage)
           (snd (try_configs (sv_recognize services) ocrConfigs)) g = Inr (entries, placeholder)"
    and "\<not> gap_detected s g (map fst entries)"
  shows "try_block canvas pn pdfPage services
         = (fst (try_configs (sv_recognize services) ocrConfigs),
            Inr (map snd entries @ placeholder,
                 primary_page canvas pn (snd (try_configs (sv_recognize services) ocrConfigs)) g
                   (grouped_arrays (sv_toLowerCase services) s entries placeholder)))"
  using assms
  by (simp add: try_block_def Let_def text_items_def [symmetric] gap_repair_def a_words_grouped
      a_chunks_grouped)

lemma flow_hello:
  "flow_words pn c 0 0.06 0.08 [utf16 ''Hello'']
     = [(\<lparr>w_text = utf16 ''Hello'',
          w_bbox = \<lparr>bbox_x = 0.06, bbox_y = 0.08, bbox_width = 11/210, bbox_height = 0.025\<rparr>,
          w_confidence = c, w_fontFamily = utf16 ''Arial'', w_fontSize = 12\<rparr>,
         \<lparr>c_text = utf16 ''Hello'', c_pageNumber = pn,
          c_geometry = \<lparr>g_x = 6, g_y = 8, g_w = 110/21, g_h = 2.5\<rparr>\<rparr>)]"
proof -
  have l: "real (length (utf16 ''Hello'')) = 5" by (simp add: utf16_def)
  have fw: "fst (flow_word pn c 0 0.06 0.08 (utf16 ''Hello''))
     = (\<lparr>w_text = utf16 ''Hello'',
          w_bbox = \<lparr>bbox_x = 0.06, bbox_y = 0.08, bbox_width = 11/210, bbox_height = 0.025\<rparr>,
          w_confidence = c, w_fontFamily = utf16 ''Arial'', w_fontSize = 12\<rparr>,
         \<lparr>c_text = utf16 ''Hello'', c_pageNumber = pn,
          c_geometry = \<lparr>g_x = 6, g_y = 8, g_w = 110/21, g_h = 2.5\<rparr>\<rparr>)"
    unfolding flow_word_def Let_def l by simp
  show ?thesis
    unfolding flow_words.simps fw by simp
qed

lemma select_words_nothing_direct:
  "select_words canvas pn [] None g
   = Inr (fallback_generation canvas pn None g,
          if length (fallback_generation canvas pn None g) = 0 then [placeholderChunk pn] else [])"
  by (simp add: select_words_def Let_def)

lemma fallback_generation_hello:
  "fallback_generation canvas pn None \<lparr>gr_text = utf16 ''Hello'', gr_confidence = 0.9\<rparr>
   = flow_words pn 0.9 0 0.06 0.08 (tokens (utf16 ''Hello''))"
  by (simp add: fallback_generation_def utf16_Nil_iff)

lemma native_sample_select:
  "select_words sample_canvas pn (text_items None)
     (snd (try_configs (sv_recognize services_native) ocrConfigs))
     \<lparr>gr_text = utf16 ''Hello'', gr_confidence = 0.9\<rparr>
   = Inr ([(\<lparr>w_text = utf16 ''Hello'',
             w_bbox = \<lparr>bbox_x = 0.06, bbox_y = 0.08, bbox_width = 11/210, bbox_height = 0.025\<rparr>,
             w_confidence = 0.9, w_fontFamily = utf16 ''Arial'', w_fontSize = 12\<rparr>,
            \<lparr>c_text = utf16 ''Hello'', c_pageNumber = pn,
             c_geometry = \<lparr>g_x = 6, g_y = 8, g_w = 110/21, g_h = 2.5\<rparr>\<rparr>)], [])"
proof -
  have t: "snd (try_configs (sv_recognize services_native) ocrConfigs) = None"
    by (simp add: services_native_def try_configs_none)
  have i: "text_items None = []" by (simp add: text_items_def)
  show ?thesis
    unfolding t i select_words_nothing_direct fallback_generation_hello tokens_hello flow_hello
    by simp
qed

lemma native_sample_without_page:
  "performGeminiExtraction sample_canvas pn None services_native
     = (ocrConfigs,
        Inr ([\<lparr>c_text = utf16 ''Hello'', c_pageNumber = pn,
               c_geometry = \<lparr>g_x = 6, g_y = 8, g_w = 110/21, g_h = 2.5\<rparr>\<rparr>],
             primary_page sample_canvas pn None \<lparr>gr_text = utf16 ''Hello'', gr_confidence = 0.9\<rparr>
               (grouped_arrays ascii_lower
                  \<lparr>sr_elements = [\<lparr>el_type = utf16 ''paragraph'', el_content = utf16 ''Hello'',
                                    el_confidence = 0.9\<rparr>],
                   sr_completeText = utf16 ''Hello''\<rparr>
                  [(\<lparr>w_text = utf16 ''Hello'',
                     w_bbox = \<lparr>bbox_x = 0.06, bbox_y = 0.08, bbox_width = 11/210, bbox_height = 0.025\<rparr>,
                     w_confidence = 0.9, w_fontFamily = utf16 ''Arial'', w_fontSize = 12\<rparr>,
                    \<lparr>c_text = utf16 ''Hello'', c_pageNumber = pn,
                     c_geometry = \<lparr>g_x = 6, g_y = 8, g_w = 110/21, g_h = 2.5\<rparr>\<rparr>)] [])))"
proof -
  have g: "sv_extractTextWithGemini services_native = Inr \<lparr>gr_text = utf16 ''Hello'', gr_confidence = 0.9\<rparr>"
    and s: "sv_analyzeDocumentStructure services_native
            = Inr \<lparr>sr_elements = [\<lparr>el_type = utf16 ''paragraph'', el_content = utf16 ''Hello'',
                                    el_confidence = 0.9\<rparr>],
                   sr_completeText = utf16 ''Hello''\<rparr>"
    and lc: "sv_toLowerCase services_native = ascii_lower"
    by (simp_all add: services_native_def)
  have tc: "try_configs (sv_recognize services_native) ocrConfigs = (ocrConfigs, None)"
    by (simp add: services_native_def try_configs_none)
  have gap: "\<not> gap_detected
                 \<lparr>sr_elements = [\<lparr>el_type = utf16 ''paragraph'', el_content = utf16 ''Hello'',
                                    el_confidence = 0.9\<rparr>],
                   sr_completeText = utf16 ''Hello''\<rparr>
                 \<lparr>gr_text = utf16 ''Hello'', gr_confidence = 0.9\<rparr>
                 (map fst [(\<lparr>w_text = utf16 ''Hello'',
                     w_bbox = \<lparr>bbox_x = 0.06, bbox_y = 0.08, bbox_width = 11/210, bbox_height = 0.025\<rparr>,
                     w_confidence = 0.9, w_fontFamily = utf16 ''Arial'', w_fontSize = 12\<rparr>,
                    \<lparr>c_text = utf16 ''Hello'', c_pageNumber = pn,
                     c_geometry = \<lparr>g_x = 6, g_y = 8, g_w = 110/21, g_h = 2.5\<rparr>\<rparr>)])"
    by (simp add: gap_detected_def completeText_def extractedText_def utf16_def)
  note tb = try_block_without_gap [OF g s native_sample_select gap]
  show ?thesis
    unfolding performGeminiExtraction_def tb tc lc by simp
qed

lemma startsWith_iff: "startsWith s n \<longleftrightarrow> (\<exists>q. s = n @ q)"
  by (induction s n rule: startsWith.induct) auto

lemma str_includes_iff: "str_includes s n \<longleftrightarrow> (\<exists>p q. s = p @ n @ q)"
proof (induction s)
  case Nil
  then show ?case by auto
next
  case (Cons d ds)
  show ?case
  proof
    assume "str_includes (d # ds) n"
    then consider "startsWith (d # ds) n" | "str_includes ds n" by auto
    then show "\<exists>p q. d # ds = p @ n @ q"
    proof cases
      case 1
      then obtain q where "d # ds = n @ q" using startsWith_iff by blast
      then have "d # ds = [] @ n @ q" by simp
      then show ?thesis by blast
    next
      case 2
      then obtain p q where "ds = p @ n @ q" using Cons.IH by blast
      then have "d # ds = (d # p) @ n @ q" by simp
      then show ?thesis by blast
    qed
  next
    assume "\<exists>p q. d # ds = p @ n @ q"
    then obtain p q where pq: "d # ds = p @ n @ q" by blast
    show "str_includes (d # ds) n"
    proof (cases p)
      case Nil
      then have "startsWith (d # ds) n" using pq startsWith_iff by auto
      then show ?thesis by simp
    next
      case (Cons a p')
      then have "ds = p' @ n @ q" using pq by simp
      then have "str_includes ds n" using Cons.IH by blast
      then show ?thesis by simp
    qed
  qed
qed

lemma join_space: "join [32] (x # xs) = x @ concat (map (\<lambda>v. 32 # v) xs)"
  by (induction xs arbitrary: x) auto

lemma extractedText_explicit:
  "extractedText words
   = (case words of [] \<Rightarrow> [] | w # ws \<Rightarrow> w_text w @ concat (map (\<lambda>v. 32 # w_text v) ws))"
  by (cases words) (simp_all add: extractedText_def join_space comp_def)

lemma add_missing_blocks:
  "a_blocks (add_missing lower pn i els arrays) =
     a_blocks arrays
     @ map (\<lambda>(k, el). fallbackBlock lower (length (a_lines arrays) + k) (length (a_blocks arrays) + k)
                          (i + k) el)
         (enumerate 0 els)"
proof (induction els arbitrary: i arrays)
  case Nil
  then show ?case by simp
next
  case (Cons el els)
  show ?case
    by (simp add: Cons.IH enumerate_Suc_eq [of 0] comp_def split_def)
qed

lemma fallbackBlock_explicit:
  "fallbackBlock lower (linesLength + k) (blocksLength + k) k el
   = \<lparr>b_id = FallbackBlockId k,
      b_type = mapElementTypeToBlockType lower (el_type el),
      b_bbox = \<lparr>bbox_x = 0.1, bbox_y = 0.8 + real k * 0.05, bbox_width = 0.8, bbox_height = 0.04\<rparr>,
      b_lines =
        [\<lparr>l_id = FallbackLineId k,
          l_words =
            map (\<lambda>(i, t).
                   \<lparr>w_text = t,
                    w_bbox = \<lparr>bbox_x = 0.1 + real i * 0.05, bbox_y = 0.8 + real k * 0.05,
                               bbox_width = min 0.05 (real (length t) * 0.01), bbox_height = 0.04\<rparr>,
                    w_confidence = el_confidence el, w_fontFamily = utf16 ''Arial'', w_fontSize = 12\<rparr>)
                (enumerate 0 (split_ws (el_content el))),
          l_bbox = \<lparr>bbox_x = 0.1, bbox_y = 0.8 + real k * 0.05, bbox_width = 0.8, bbox_height = 0.04\<rparr>,
          l_readingOrder = linesLength + k + k, l_alignment = utf16 ''left''\<rparr>],
      b_confidence = el_confidence el,
      b_semanticRole = Some (el_type el),
      b_readingOrder = blocksLength + k + k\<rparr>"
  by (simp add: fallbackBlock_def fallbackLine_def fallbackWords_def fallbackBBox_def enumerate_eq_zip)

lemma gap_detected_explicit:
  "gap_detected s g ws \<longleftrightarrow>
     real (length (extractedText ws)) * 1.2
       < real (length (if sr_completeText s \<noteq> [] then sr_completeText s else gr_text g))"
  by (simp add: gap_detected_def completeText_def)

subsection \<open>The completeness check\<close>

text \<open>
  Claim C3, amended. Let \<open>recognised\<close> be the texts of the words of the page joined by
  single spaces, \<open>fullText\<close> the structural call's \<^verbatim>\<open>completeText\<close> (the plain text of the
  vision model if that is empty), and \<open>missing\<close> the structural elements whose content,
  lower-cased and trimmed, is not empty and is not a substring of the lower-cased
  \<open>recognised\<close>. If the length of \<open>fullText\<close> does not exceed 1.2 times the length of
  \<open>recognised\<close>, the completeness check leaves the arrays of the page unchanged. If it
  does, the check appends one block for each element of \<open>missing\<close>, in order: the block
  with the element's type, confidence and role, placed at \<open>y = 0.8 + 0.05 * k\<close>, with one
  line that holds the white-space pieces of the content. At a ratio of 1.3 the length
  exceeds the threshold; at 1.1 and at exactly 1.2 the arrays are unchanged.
\<close>

theorem coverage_gap_threshold:
  assumes rec: "recognised = (case a_words arrays of
                                [] \<Rightarrow> []
                              | w # ws \<Rightarrow> w_text w @ concat (map (\<lambda>v. 32 # w_text v) ws))"
    and com: "fullText = (if sr_completeText s \<noteq> [] then sr_completeText s else gr_text g)"
    and mis: "missing = filter (\<lambda>el. trim (toLowerCase (el_content el)) \<noteq> []
                                   \<and> \<not> (\<exists>p q. toLowerCase recognised
                                                 = p @ trim (toLowerCase (el_content el)) @ q))
                               (sr_elements s)"
  shows "(\<not> real (length recognised) * 1.2 < real (length fullText)
            \<longrightarrow> gap_repair toLowerCase pn s g arrays = arrays)
       \<and> (real (length recognised) * 1.2 < real (length fullText) \<longrightarrow>
            a_blocks (gap_repair toLowerCase pn s g arrays)
              = a_blocks arrays
                @ map (\<lambda>(k, el).
                         \<lparr>b_id = FallbackBlockId k,
                          b_type = mapElementTypeToBlockType toLowerCase (el_type el),
                          b_bbox = \<lparr>bbox_x = 0.1, bbox_y = 0.8 + real k * 0.05, bbox_width = 0.8,
                                     bbox_height = 0.04\<rparr>,
                          b_lines =
                            [\<lparr>l_id = FallbackLineId k,
                              l_words =
                                map (\<lambda>(i, t).
                                       \<lparr>w_text = t,
                                        w_bbox = \<lparr>bbox_x = 0.1 + real i * 0.05,
                                                   bbox_y = 0.8 + real k * 0.05,
                                                   bbox_width = min 0.05 (real (length t) * 0.01),
                                                   bbox_height = 0.04\<rparr>,
                                        w_confidence = el_confidence el,
                                        w_fontFamily = utf16 ''Arial'', w_fontSize = 12\<rparr>)
                                    (enumerate 0 (split_ws (el_content el))),
                              l_bbox = \<lparr>bbox_x = 0.1, bbox_y = 0.8 + real k * 0.05, bbox_width = 0.8,
                                         bbox_height = 0.04\<rparr>,
                              l_readingOrder = length (a_lines arrays) + k + k,
                              l_alignment = utf16 ''left''\<rparr>],
                          b_confidence = el_confidence el,
                          b_semanticRole = Some (el_type el),
                          b_readingOrder = length (a_blocks arrays) + k + k\<rparr>)
                    (enumerate 0 missing)
          \<and> length (a_blocks (gap_repair toLowerCase pn s g arrays))
              = length (a_blocks arrays) + length missing)
       \<and> (0 < length recognised \<and> 10 * length fullText = 13 * length recognised
            \<longrightarrow> real (length recognised) * 1.2 < real (length fullText))
       \<and> (10 * length fullText = 11 * length recognised \<or> 10 * length fullText = 12 * length recognised
            \<longrightarrow> gap_repair toLowerCase pn s g arrays = arrays)"
proof -
  have r: "recognised = extractedText (a_words arrays)"
    unfolding rec by (rule extractedText_explicit [symmetric])
  have m: "missing = missingTextElements toLowerCase s (a_words arrays)"
    unfolding mis r by (simp add: missingTextElements_def Let_def str_includes_iff)
  have d: "gap_detected s g (a_words arrays)
           \<longleftrightarrow> real (length recognised) * 1.2 < real (length fullText)"
    unfolding r com by (rule gap_detected_explicit)
  have n: "real (length recognised) * 1.2 < real (length fullText)
           \<longleftrightarrow> 6 * length recognised < 5 * length fullText"
  proof -
    have "real (length recognised) * 1.2 < real (length fullText)
          \<longleftrightarrow> real (6 * length recognised) < real (5 * length fullText)"
      by (simp add: mult.commute)
    then show ?thesis by (simp only: of_nat_less_iff)
  qed
  have 1: "\<not> real (length recognised) * 1.2 < real (length fullText)
            \<longrightarrow> gap_repair toLowerCase pn s g arrays = arrays"
    unfolding d [symmetric] by (simp add: gap_repair_def)
  have 2: "real (length recognised) * 1.2 < real (length fullText) \<longrightarrow>
            a_blocks (gap_repair toLowerCase pn s g arrays)
              = a_blocks arrays
                @ map (\<lambda>(k, el). fallbackBlock toLowerCase (length (a_lines arrays) + k)
                                     (length (a_blocks arrays) + k) k el)
                    (enumerate 0 missing)"
    unfolding d [symmetric] m by (simp add: gap_repair_def add_missing_blocks)
  have 3: "0 < length recognised \<and> 10 * length fullText = 13 * length recognised
            \<longrightarrow> real (length recognised) * 1.2 < real (length fullText)"
    unfolding n by arith
  have 4: "10 * length fullText = 11 * length recognised \<or> 10 * length fullText = 12 * length recognised
            \<longrightarrow> \<not> real (length recognised) * 1.2 < real (length fullText)"
    unfolding n by arith
  show ?thesis
    using 1 2 3 4 unfolding fallbackBlock_explicit by auto
qed

lemma two_words_text:
  "extractedText (a_words (grouped_arrays lower s two_words placeholder)) = utf16 ''abcd efghi''"
  by (simp add: a_words_grouped two_words_def extractedText_def word_at_def utf16_def)

lemma lower_two_words: "ascii_lower (utf16 ''abcd efghi'') = utf16 ''abcd efghi''"
  by (simp add: ascii_lower_def utf16_def)

lemma footer_is_missing:
  "missingTextElements ascii_lower (structure_with [footer_element, padded_element] txt)
     (a_words (grouped_arrays lower s two_words placeholder)) = [footer_element]"
  unfolding missingTextElements_def two_words_text lower_two_words
  by (simp add: structure_with_def footer_element_def padded_element_def Let_def ascii_lower_def
      trim_def is_space_def utf16_def)

lemma padded_not_missing:
  "missingTextElements ascii_lower (structure_with [padded_element] txt)
     (a_words (grouped_arrays lower s two_words placeholder)) = []"
  unfolding missingTextElements_def two_words_text lower_two_words
  by (simp add: structure_with_def padded_element_def Let_def ascii_lower_def
      trim_def is_space_def utf16_def)

text \<open>
  Claim C3 as stated says that a block is appended for every structural element whose
  content is not a case-insensitive substring of the recognised text. The code tests the
  trimmed content: with the recognised text \<^verbatim>\<open>abcd efghi\<close> and a complete text of 13
  code units the check fires, the content of the element, \<^verbatim>\<open>abcd\<close> between two spaces,
  is not a substring of the recognised text, and yet nothing is appended.
\<close>

theorem padded_content_counterexample:
  "extractedText (a_words (grouped_arrays ascii_lower (structure_with [padded_element] ''abcd efghi xy'')
                             two_words []))
     = utf16 ''abcd efghi''
   \<and> completeText (structure_with [padded_element] ''abcd efghi xy'') some_gemini = utf16 ''abcd efghi xy''
   \<and> gap_detected (structure_with [padded_element] ''abcd efghi xy'') some_gemini
        (a_words (grouped_arrays ascii_lower (structure_with [padded_element] ''abcd efghi xy'')
                    two_words []))
   \<and> el_content padded_element = utf16 '' abcd ''
   \<and> \<not> str_includes (ascii_lower (utf16 ''abcd efghi'')) (ascii_lower (utf16 '' abcd ''))
   \<and> gap_repair ascii_lower 1 (structure_with [padded_element] ''abcd efghi xy'') some_gemini
        (grouped_arrays ascii_lower (structure_with [padded_element] ''abcd efghi xy'') two_words [])
     = grouped_arrays ascii_lower (structure_with [padded_element] ''abcd efghi xy'') two_words []"
proof -
  have c: "completeText (structure_with [padded_element] ''abcd efghi xy'') some_gemini
           = utf16 ''abcd efghi xy''"
    by (simp add: completeText_def structure_with_def utf16_Nil_iff)
  have d: "gap_detected (structure_with [padded_element] ''abcd efghi xy'') some_gemini
        (a_words (grouped_arrays ascii_lower (structure_with [padded_element] ''abcd efghi xy'')
                    two_words []))"
    unfolding gap_detected_def two_words_text c by (simp add: utf16_def)
  have i: "\<not> str_includes (ascii_lower (utf16 ''abcd efghi'')) (ascii_lower (utf16 '' abcd ''))"
    by (simp add: ascii_lower_def utf16_def)
  have r: "gap_repair ascii_lower 1 (structure_with [padded_element] ''abcd efghi xy'') some_gemini
        (grouped_arrays ascii_lower (structure_with [padded_element] ''abcd efghi xy'') two_words [])
     = grouped_arrays ascii_lower (structure_with [padded_element] ''abcd efghi xy'') two_words []"
    unfolding gap_repair_def padded_not_missing using d by simp
  have p: "el_content padded_element = utf16 '' abcd ''" by (simp add: padded_element_def)
  show ?thesis by (intro conjI two_words_text c d p i r)
qed

text \<open>
  Claim C3, amended, at concrete inputs: two recognised words (ten code units when
  joined) against complete texts of 13, 12 and 11 code units, with one structural element
  that was not recognised and one whose trimmed content was.
\<close>

theorem coverage_gap_threshold_witness:
  "a_blocks (gap_repair ascii_lower 1 (gap_structure ''abcd efghi xy'') some_gemini
               (gap_arrays ''abcd efghi xy''))
     = a_blocks (gap_arrays ''abcd efghi xy'')
       @ [\<lparr>b_id = FallbackBlockId 0, b_type = Footer,
           b_bbox = \<lparr>bbox_x = 0.1, bbox_y = 0.8, bbox_width = 0.8, bbox_height = 0.04\<rparr>,
           b_lines =
             [\<lparr>l_id = FallbackLineId 0,
               l_words =
                 [\<lparr>w_text = utf16 ''Page'',
                   w_bbox = \<lparr>bbox_x = 0.1, bbox_y = 0.8, bbox_width = 0.04, bbox_height = 0.04\<rparr>,
                   w_confidence = 0.9, w_fontFamily = utf16 ''Arial'', w_fontSize = 12\<rparr>,
                  \<lparr>w_text = utf16 ''7'',
                   w_bbox = \<lparr>bbox_x = 0.15, bbox_y = 0.8, bbox_width = 0.01, bbox_height = 0.04\<rparr>,
                   w_confidence = 0.9, w_fontFamily = utf16 ''Arial'', w_fontSize = 12\<rparr>],
               l_bbox = \<lparr>bbox_x = 0.1, bbox_y = 0.8, bbox_width = 0.8, bbox_height = 0.04\<rparr>,
               l_readingOrder = length (a_lines (gap_arrays ''abcd efghi xy'')),
               l_alignment = utf16 ''left''\<rparr>],
           b_confidence = 0.9, b_semanticRole = Some (utf16 ''footer''),
           b_readingOrder = length (a_blocks (gap_arrays ''abcd efghi xy''))\<rparr>]
   \<and> gap_repair ascii_lower 1 (gap_structure ''abcd efghi x'') some_gemini (gap_arrays ''abcd efghi x'')
       = gap_arrays ''abcd efghi x''
   \<and> gap_repair ascii_lower 1 (gap_structure ''abcd efghij'') some_gemini (gap_arrays ''abcd efghij'')
       = gap_arrays ''abcd efghij''"
proof -
  have rec: "utf16 ''abcd efghi''
             = (case a_words (gap_arrays tx) of
                  [] \<Rightarrow> []
                | w # ws \<Rightarrow> w_text w @ concat (map (\<lambda>v. 32 # w_text v) ws))" for tx
    unfolding gap_arrays_def
    by (rule two_words_text [unfolded extractedText_explicit, symmetric])
  have com: "utf16 tx = (if sr_completeText (gap_structure tx) \<noteq> []
                          then sr_completeText (gap_structure tx) else gr_text some_gemini)"
    if "tx \<noteq> []" for tx
    using that by (simp add: gap_structure_def structure_with_def utf16_Nil_iff)
  have f: "filter (\<lambda>el. trim (ascii_lower (el_content el)) \<noteq> []
                        \<and> \<not> (\<exists>p q. ascii_lower (utf16 ''abcd efghi'')
                                      = p @ trim (ascii_lower (el_content el)) @ q))
             (sr_elements (gap_structure tx))
           = missingTextElements ascii_lower (gap_structure tx) (a_words (gap_arrays tx))" for tx
    unfolding missingTextElements_def gap_arrays_def two_words_text
    by (simp add: Let_def str_includes_iff)
  have mis: "[footer_element]
             = filter (\<lambda>el. trim (ascii_lower (el_content el)) \<noteq> []
                        \<and> \<not> (\<exists>p q. ascii_lower (utf16 ''abcd efghi'')
                                      = p @ trim (ascii_lower (el_content el)) @ q))
                 (sr_elements (gap_structure tx))" for tx
    unfolding f unfolding gap_structure_def gap_arrays_def by (rule footer_is_missing [symmetric])
  note t13 = coverage_gap_threshold [OF rec com mis, of "''abcd efghi xy''" 1]
  note t12 = coverage_gap_threshold [OF rec com mis, of "''abcd efghi x''" 1]
  note t11 = coverage_gap_threshold [OF rec com mis, of "''abcd efghij''" 1]
  have l10: "length (utf16 ''abcd efghi'') = 10" and l13: "length (utf16 ''abcd efghi xy'') = 13"
    and l12: "length (utf16 ''abcd efghi x'') = 12" and l11: "length (utf16 ''abcd efghij'') = 11"
    by (simp_all add: utf16_def)
  have ty: "mapElementTypeToBlockType ascii_lower (utf16 ''footer'') = Footer"
    by (simp add: mapElementTypeToBlockType_def ascii_lower_def utf16_def)
  have sp: "split_ws (utf16 ''Page 7'') = [utf16 ''Page'', utf16 ''7'']"
    by (simp add: split_ws_def is_space_def utf16_def)
  have lp: "length (utf16 ''Page'') = 4" "length (utf16 ''7'') = 1" by (simp_all add: utf16_def)
  have a: "a_blocks (gap_repair ascii_lower 1 (gap_structure ''abcd efghi xy'') some_gemini
               (gap_arrays ''abcd efghi xy''))
     = a_blocks (gap_arrays ''abcd efghi xy'')
       @ [\<lparr>b_id = FallbackBlockId 0, b_type = Footer,
           b_bbox = \<lparr>bbox_x = 0.1, bbox_y = 0.8, bbox_width = 0.8, bbox_height = 0.04\<rparr>,
           b_lines =
             [\<lparr>l_id = FallbackLineId 0,
               l_words =
                 [\<lparr>w_text = utf16 ''Page'',
                   w_bbox = \<lparr>bbox_x = 0.1, bbox_y = 0.8, bbox_width = 0.04, bbox_height = 0.04\<rparr>,
                   w_confidence = 0.9, w_fontFamily = utf16 ''Arial'', w_fontSize = 12\<rparr>,
                  \<lparr>w_text = utf16 ''7'',
                   w_bbox = \<lparr>bbox_x = 0.15, bbox_y = 0.8, bbox_width = 0.01, bbox_height = 0.04\<rparr>,
                   w_confidence = 0.9, w_fontFamily = utf16 ''Arial'', w_fontSize = 12\<rparr>],
               l_bbox = \<lparr>bbox_x = 0.1, bbox_y = 0.8, bbox_width = 0.8, bbox_height = 0.04\<rparr>,
               l_readingOrder = length (a_lines (gap_arrays ''abcd efghi xy'')),
               l_alignment = utf16 ''left''\<rparr>],
           b_confidence = 0.9, b_semanticRole = Some (utf16 ''footer''),
           b_readingOrder = length (a_blocks (gap_arrays ''abcd efghi xy''))\<rparr>]"
    using t13 unfolding l10 l13
    by (simp add: footer_element_def ty sp lp)
  have b: "gap_repair ascii_lower 1 (gap_structure ''abcd efghi x'') some_gemini (gap_arrays ''abcd efghi x'')
       = gap_arrays ''abcd efghi x''"
    using t12 unfolding l10 l12 by simp
  have c: "gap_repair ascii_lower 1 (gap_structure ''abcd efghij'') some_gemini (gap_arrays ''abcd efghij'')
       = gap_arrays ''abcd efghij''"
    using t11 unfolding l10 l11 by simp
  show ?thesis by (intro conjI a b c)
qed

lemma map_filter_all_none: "list_all (\<lambda>w. f w = None) ws \<Longrightarrow> List.map_filter f ws = []"
  by (induction ws) auto

lemma no_usable_lines:
  "list_all (\<lambda>l. \<not> line_usable l) ls
   \<Longrightarrow> concat (map (line_entries_primary canvas pn) ls) = [] \<and> \<not> list_ex line_usable ls"
  by (induction ls) (auto simp: line_entries_primary_def split: option.splits)

lemma grouped_arrays_empty:
  "grouped_arrays lower s [] placeholder =
     \<lparr>a_legacyChunks = placeholder, a_words = [], a_lines = [], a_blocks = []\<rparr>"
  by (simp add: grouped_arrays_def groupWordsIntoLines_def build_lines_def groupLinesIntoBlocks_def
      build_blocks_def)

lemma native_text_always_throws:
  assumes "sv_extractTextWithGemini services = Inr g"
    and "sv_analyzeDocumentStructure services = Inr s"
    and "\<not> list_all (\<lambda>item. trim (ti_str item) = []) (text_items pdfPage)"
  shows "performGeminiExtraction canvas pn pdfPage services
           = (fst (try_configs (sv_recognize services) ocrConfigs) @ [fallbackParams],
              snd (catch_block canvas pn services))"
proof -
  have ne: "text_items pdfPage \<noteq> []" using assms(3) by auto
  have tb: "try_block canvas pn pdfPage services
            = (fst (try_configs (sv_recognize services) ocrConfigs), Inl (ReferenceError ''w''))"
    using ne
    by (simp add: try_block_def assms(1,2) Let_def text_items_def [symmetric] select_words_def
        native_items_throw [OF assms(3)])
  show ?thesis
    by (simp add: performGeminiExtraction_def tb catch_block_def)
qed

lemma try_block_ends_with_gap_repair:
  assumes "try_block canvas pn pdfPage services = (calls, Inr (chunks, page))"
  shows "\<exists>g s entries placeholder.
           sv_extractTextWithGemini services = Inr g
         \<and> sv_analyzeDocumentStructure services = Inr s
         \<and> select_words canvas pn (text_items pdfPage)
               (snd (try_configs (sv_recognize services) ocrConfigs)) g = Inr (entries, placeholder)
         \<and> chunks = a_legacyChunks (gap_repair (sv_toLowerCase services) pn s g
                        (grouped_arrays (sv_toLowerCase services) s entries placeholder))
         \<and> ir_words page = a_words (gap_repair (sv_toLowerCase services) pn s g
                        (grouped_arrays (sv_toLowerCase services) s entries placeholder))
         \<and> ir_lines page = a_lines (gap_repair (sv_toLowerCase services) pn s g
                        (grouped_arrays (sv_toLowerCase services) s entries placeholder))
         \<and> ir_blocks page = a_blocks (gap_repair (sv_toLowerCase services) pn s g
                        (grouped_arrays (sv_toLowerCase services) s entries placeholder))"
  using assms
  by (auto simp: try_block_def Let_def text_items_def [symmetric] primary_page_def
      split: sum.splits prod.splits)

subsection \<open>The native text layer\<close>

text \<open>
  Claim C1 says that a page whose text layer has an item with text gets the items of the
  text layer as its words, with confidence 0.98, and that no later stage runs. The
  component never hands the page to the extraction (lines 1202 and 812), so the text
  layer is not read. On a page whose text layer holds the item \<^verbatim>\<open>Hello\<close>, with OCR finding
  no word, the three OCR configurations are run and the one word of the page is the one
  that the document flow synthesises from the vision model's text: confidence 0.9, at
  the top left of the flow, instead of the word of the text layer. Without advanced
  processing the page has no word at all. (Were the page handed over, lines 203-204
  would throw, see \<open>native_text_always_throws\<close>.)
\<close>

theorem native_text_layer_never_read:
  "fst (page_extraction True (Inr [native_item_hello]) sample_canvas 1 services_native) = ocrConfigs
   \<and> words_of (page_extraction True (Inr [native_item_hello]) sample_canvas 1 services_native)
       = [\<lparr>w_text = utf16 ''Hello'',
           w_bbox = \<lparr>bbox_x = 0.06, bbox_y = 0.08, bbox_width = 11/210, bbox_height = 0.025\<rparr>,
           w_confidence = 0.9, w_fontFamily = utf16 ''Arial'', w_fontSize = 12\<rparr>]
   \<and> native_word sample_canvas native_item_hello
       = \<lparr>w_text = utf16 ''Hello'',
          w_bbox = \<lparr>bbox_x = 0.1, bbox_y = 86/175, bbox_width = 0.03, bbox_height = 3/350\<rparr>,
          w_confidence = 0.98, w_fontFamily = utf16 ''Helvetica'', w_fontSize = 12\<rparr>
   \<and> words_of (page_extraction False (Inr [native_item_hello]) sample_canvas 1 services_native) = []"
proof -
  have adv: "page_extraction True page sample_canvas pn services_native
             = performGeminiExtraction sample_canvas pn None services_native" for page pn
    by (simp add: page_extraction_def performEnhancedOCR_def)
  have 1: "fst (page_extraction True (Inr [native_item_hello]) sample_canvas 1 services_native)
           = ocrConfigs"
    unfolding adv native_sample_without_page by simp
  have 2: "words_of (page_extraction True (Inr [native_item_hello]) sample_canvas 1 services_native)
       = [\<lparr>w_text = utf16 ''Hello'',
           w_bbox = \<lparr>bbox_x = 0.06, bbox_y = 0.08, bbox_width = 11/210, bbox_height = 0.025\<rparr>,
           w_confidence = 0.9, w_fontFamily = utf16 ''Arial'', w_fontSize = 12\<rparr>]"
    unfolding adv native_sample_without_page words_of_def
    by (simp add: primary_page_def a_words_grouped)
  have 3: "native_word sample_canvas native_item_hello
       = \<lparr>w_text = utf16 ''Hello'',
          w_bbox = \<lparr>bbox_x = 0.1, bbox_y = 86/175, bbox_width = 0.03, bbox_height = 3/350\<rparr>,
          w_confidence = 0.98, w_fontFamily = utf16 ''Helvetica'', w_fontSize = 12\<rparr>"
    by (simp add: native_word_def native_item_hello_def sample_canvas_def Let_def utf16_Nil_iff)
  have plain: "page_extraction False page sample_canvas pn services_native
               = ([plainParams], Inr (plain_extraction sample_canvas pn no_ocr_data))" for page pn
    by (simp add: page_extraction_def performEnhancedOCR_def services_native_def)
  have 4: "words_of (page_extraction False (Inr [native_item_hello]) sample_canvas 1 services_native) = []"
    unfolding plain words_of_def
    by (simp add: plain_extraction_def no_ocr_data_def Let_def)
  show ?thesis by (intro conjI 1 2 3 4)
qed

subsection \<open>The geometry of legacy chunks\<close>

text \<open>
  Claim C8 says that the geometry of every legacy chunk is in percent, between 0 and 100.
  The \<^verbatim>\<open>catch\<close> block and the plain OCR path store the OCR box in pixels: a word at pixel
  500 of a canvas 1000 wide gets \<open>x = 500\<close>, where the primary path would store 50.
\<close>

theorem fallback_chunk_geometry_in_pixels:
  "map c_geometry (chunks_of (performGeminiExtraction sample_canvas 1 None services_vision_down))
     = [\<lparr>g_x = 500, g_y = 300, g_w = 100, g_h = 30\<rparr>]
   \<and> map c_geometry (chunks_of (performEnhancedOCR False sample_canvas 1 services_vision_down))
     = [\<lparr>g_x = 500, g_y = 300, g_w = 100, g_h = 30\<rparr>]"
proof -
  have 1: "map c_geometry (chunks_of (performGeminiExtraction sample_canvas 1 None services_vision_down))
     = [\<lparr>g_x = 500, g_y = 300, g_w = 100, g_h = 30\<rparr>]"
    by (simp add: vision_down_obs chunks_of_def emergency_extraction_def Let_def emergency_one_word)
  have 2: "performEnhancedOCR False sample_canvas pn services_vision_down
            = ([plainParams], Inr (plain_extraction sample_canvas pn one_word_data))" for pn
    by (simp add: performEnhancedOCR_def services_vision_down_def)
  have 3: "map c_geometry (chunks_of (performEnhancedOCR False sample_canvas 1 services_vision_down))
     = [\<lparr>g_x = 500, g_y = 300, g_w = 100, g_h = 30\<rparr>]"
    by (simp add: 2 chunks_of_def plain_extraction_def Let_def plain_one_word)
  show ?thesis using 1 3 by blast
qed

subsection \<open>The vision model fails\<close>

text \<open>
  Claim C2 as stated fails in its last part: the block built by the \<^verbatim>\<open>catch\<close> block has
  the fixed confidence 0.8, whatever the confidence of the words. With one word of
  confidence 0.5 the mean over the lines of the mean word confidence is 0.5.
\<close>

theorem fallback_block_confidence_counterexample:
  "map b_confidence (blocks_of (performGeminiExtraction sample_canvas 1 None services_vision_down)) = [0.8]
   \<and> map (\<lambda>b. mean_line_confidence (b_lines b))
        (blocks_of (performGeminiExtraction sample_canvas 1 None services_vision_down)) = [0.5]"
  by (simp add: vision_down_obs blocks_of_def emergency_extraction_def Let_def emergency_one_word
      groupWordsIntoLines_single all_lines_def make_line_def mean_line_confidence_def)

text \<open>
  Claim C2, amended. When a call of the vision model throws, the exception is caught and
  the page is processed by the OCR fallback: \<^verbatim>\<open>recognize\<close> is called exactly once, with the
  segmentation mode \<^verbatim>\<open>SINGLE_BLOCK\<close>. If that call throws, its exception is the outcome;
  otherwise the page is returned with exactly one block, which holds all lines of the page
  and has confidence 0.8.
\<close>

theorem vision_failure_falls_back:
  assumes "sv_extractTextWithGemini services = Inl e \<or> sv_analyzeDocumentStructure services = Inl e"
  shows "fst (performGeminiExtraction canvas pn pdfPage services) = [fallbackParams]
       \<and> (\<forall>e'. sv_recognize services fallbackParams = Inl e'
             \<longrightarrow> snd (performGeminiExtraction canvas pn pdfPage services) = Inl e')
       \<and> (\<forall>data. sv_recognize services fallbackParams = Inr data \<longrightarrow>
             snd (performGeminiExtraction canvas pn pdfPage services)
               = Inr (emergency_extraction canvas pn data)
           \<and> map b_confidence (blocks_of (performGeminiExtraction canvas pn pdfPage services)) = [0.8]
           \<and> map b_lines (blocks_of (performGeminiExtraction canvas pn pdfPage services))
               = [ir_lines (snd (emergency_extraction canvas pn data))])"
proof -
  have tb: "\<exists>err. try_block canvas pn pdfPage services = ([], Inl err)"
    using assms by (auto simp: try_block_def split: sum.splits)
  then obtain err where tb': "try_block canvas pn pdfPage services = ([], Inl err)" by blast
  have p: "performGeminiExtraction canvas pn pdfPage services = catch_block canvas pn services"
    by (simp add: performGeminiExtraction_def tb')
  show ?thesis
    by (auto simp: p catch_block_def blocks_of_def emergency_extraction_def Let_def)
qed

text \<open>
  Claim C2, amended, at a concrete input: the vision model answers 503 and OCR finds one
  word.
\<close>

theorem vision_failure_falls_back_witness:
  "fst (performGeminiExtraction sample_canvas 1 None services_vision_down) = [fallbackParams]
   \<and> returned (performGeminiExtraction sample_canvas 1 None services_vision_down)
   \<and> map b_confidence (blocks_of (performGeminiExtraction sample_canvas 1 None services_vision_down)) = [0.8]"
proof -
  have h: "sv_extractTextWithGemini services_vision_down = Inl (RemoteError 503)
           \<or> sv_analyzeDocumentStructure services_vision_down = Inl (RemoteError 503)"
    by (simp add: services_vision_down_def)
  have r: "sv_recognize services_vision_down fallbackParams = Inr one_word_data"
    by (simp add: services_vision_down_def)
  note t = vision_failure_falls_back [OF h, of sample_canvas 1 None]
  have a: "fst (performGeminiExtraction sample_canvas 1 None services_vision_down) = [fallbackParams]"
    using t by blast
  have b: "snd (performGeminiExtraction sample_canvas 1 None services_vision_down)
               = Inr (emergency_extraction sample_canvas 1 one_word_data)"
    using t r by blast
  have c: "map b_confidence (blocks_of (performGeminiExtraction sample_canvas 1 None services_vision_down)) = [0.8]"
    using t r by blast
  have d: "returned (performGeminiExtraction sample_canvas 1 None services_vision_down)"
    unfolding returned_def b by simp
  show ?thesis by (intro conjI a d c)
qed

subsection \<open>Nothing available\<close>

text \<open>
  Claim C6 as stated fails where the vision model yields nothing because its call throws,
  and where it is not asked at all: with OCR finding nothing, the \<^verbatim>\<open>catch\<close> block and the
  plain OCR path both return the page with no chunk, not with the placeholder.
\<close>

theorem no_placeholder_counterexample:
  "returned (performGeminiExtraction sample_canvas 1 None services_all_down)
   \<and> chunks_of (performGeminiExtraction sample_canvas 1 None services_all_down) = []
   \<and> returned (performEnhancedOCR False sample_canvas 1 services_all_down)
   \<and> chunks_of (performEnhancedOCR False sample_canvas 1 services_all_down) = []"
proof -
  have a: "performGeminiExtraction sample_canvas pn None services_all_down
           = ([fallbackParams], Inr (emergency_extraction sample_canvas pn no_ocr_data))" for pn
    by (simp add: performGeminiExtraction_def try_block_def catch_block_def services_all_down_def)
  have b: "performEnhancedOCR False sample_canvas pn services_all_down
           = ([plainParams], Inr (plain_extraction sample_canvas pn no_ocr_data))" for pn
    by (simp add: performEnhancedOCR_def services_all_down_def)
  have 1: "returned (performGeminiExtraction sample_canvas 1 None services_all_down)"
    unfolding a returned_def by simp
  have 2: "chunks_of (performGeminiExtraction sample_canvas 1 None services_all_down) = []"
    unfolding a chunks_of_def by (simp add: emergency_extraction_def Let_def emergency_no_data)
  have 3: "returned (performEnhancedOCR False sample_canvas 1 services_all_down)"
    unfolding b returned_def by simp
  have 4: "chunks_of (performEnhancedOCR False sample_canvas 1 services_all_down) = []"
    unfolding b chunks_of_def by (simp add: plain_extraction_def no_ocr_data_def Let_def)
  show ?thesis by (intro conjI 1 2 3 4)
qed

text \<open>
  Claim C6, amended. When both calls of the vision model return, with empty plain text
  and empty complete text, the text layer has no item with text, and the OCR data chosen
  by the configuration loop has no usable word and no usable line, the page is returned
  with exactly one legacy chunk, the placeholder, and with no word and no block.
\<close>

theorem nothing_available_placeholder:
  assumes g: "sv_extractTextWithGemini services = Inr g" "gr_text g = []"
    and s: "sv_analyzeDocumentStructure services = Inr s" "sr_completeText s = []"
    and native: "list_all (\<lambda>item. trim (ti_str item) = []) (text_items pdfPage)"
    and ocr: "ocr_gives_nothing canvas pn (snd (try_configs (sv_recognize services) ocrConfigs))"
  shows "chunks_of (performGeminiExtraction canvas pn pdfPage services)
           = [\<lparr>c_text = utf16 ''No text detected'', c_pageNumber = pn,
               c_geometry = \<lparr>g_x = 10, g_y = 10, g_w = 20, g_h = 5\<rparr>\<rparr>]
       \<and> words_of (performGeminiExtraction canvas pn pdfPage services) = []
       \<and> blocks_of (performGeminiExtraction canvas pn pdfPage services) = []
       \<and> returned (performGeminiExtraction canvas pn pdfPage services)"
proof -
  let ?ocrData = "snd (try_configs (sv_recognize services) ocrConfigs)"
  have fb: "fallback_generation canvas pn ?ocrData g = []"
  proof (cases ?ocrData)
    case None
    then show ?thesis by (simp add: fallback_generation_def g(2))
  next
    case (Some data)
    then have "list_all (\<lambda>l. \<not> line_usable l) (od_lines data)"
      using ocr by (simp add: ocr_gives_nothing_def)
    then show ?thesis
      using no_usable_lines [of "od_lines data" canvas pn] Some
      by (simp add: fallback_generation_def g(2))
  qed
  have direct: "(case ?ocrData of
                    Some data \<Rightarrow> Inr (List.map_filter (ocr_word_primary canvas pn) (od_words data))
                  | None \<Rightarrow> Inr []) = (Inr [] :: js_error + (Word \<times> LegacyTextChunk) list)"
    using ocr by (auto simp: ocr_gives_nothing_def map_filter_all_none split: option.splits)
  have sel: "select_words canvas pn (text_items pdfPage) ?ocrData g = Inr ([], [placeholderChunk pn])"
    unfolding select_words_def
    by (simp add: native_items_blank [OF native] direct fb)
  have gap: "\<not> gap_detected s g []"
    by (simp add: gap_detected_def completeText_def s(2) g(2))
  have tb: "try_block canvas pn pdfPage services =
          (fst (try_configs (sv_recognize services) ocrConfigs),
           Inr ([placeholderChunk pn],
                primary_page canvas pn ?ocrData g
                  \<lparr>a_legacyChunks = [placeholderChunk pn], a_words = [], a_lines = [], a_blocks = []\<rparr>))"
    using sel gap
    by (simp add: try_block_def g(1) s(1) Let_def text_items_def [symmetric] grouped_arrays_empty
        gap_repair_def)
  show ?thesis
    by (simp add: performGeminiExtraction_def tb chunks_of_def words_of_def blocks_of_def
        returned_def primary_page_def placeholderChunk_def)
qed

text \<open>
  Claim C6, amended, at a concrete input: every source is empty; the chunk has the text
  \<^verbatim>\<open>No text detected\<close> and the geometry 10, 10, 20, 5.
\<close>

theorem nothing_available_placeholder_witness:
  "chunks_of (performGeminiExtraction sample_canvas 1 None services_empty)
     = [\<lparr>c_text = utf16 ''No text detected'', c_pageNumber = 1,
         c_geometry = \<lparr>g_x = 10, g_y = 10, g_w = 20, g_h = 5\<rparr>\<rparr>]
   \<and> words_of (performGeminiExtraction sample_canvas 1 None services_empty) = []
   \<and> returned (performGeminiExtraction sample_canvas 1 None services_empty)"
proof -
  have g: "sv_extractTextWithGemini services_empty = Inr \<lparr>gr_text = [], gr_confidence = 0.85\<rparr>"
    "gr_text \<lparr>gr_text = [], gr_confidence = 0.85\<rparr> = []"
    by (simp_all add: services_empty_def)
  have s: "sv_analyzeDocumentStructure services_empty = Inr \<lparr>sr_elements = [], sr_completeText = []\<rparr>"
    "sr_completeText \<lparr>sr_elements = [], sr_completeText = []\<rparr> = []"
    by (simp_all add: services_empty_def)
  have n: "list_all (\<lambda>item. trim (ti_str item) = []) (text_items None)"
    by (simp add: text_items_def)
  have o: "ocr_gives_nothing sample_canvas 1 (snd (try_configs (sv_recognize services_empty) ocrConfigs))"
    by (simp add: services_empty_def try_configs_none ocr_gives_nothing_def)
  note t = nothing_available_placeholder [OF g s n o]
  show ?thesis using t by simp
qed


section \<open>Verification of the progress reporting\<close>

lemma progress_values_append: "progress_values (xs @ ys) = progress_values xs @ progress_values ys"
  by (induction xs rule: progress_values.induct) auto

lemma page_ok_events:
  "onPageLoadSuccess n cur None =
     (map Progress (page_values n cur) @ (if cur = n then [ProcessingComplete, Progress 100] else []),
      if cur = n then None else Some (cur + 1))"
  by (simp add: onPageLoadSuccess_def Let_def page_values_def)

lemma progress_values_map: "progress_values (map Progress vs) = vs"
  by (induction vs) auto

lemma before_complete_map:
  "before_complete (map Progress vs @ rest) = map Progress vs @ before_complete rest"
  by (induction vs) (auto simp: before_complete_def)

lemma before_complete_simps:
  "before_complete (ProcessingComplete # rest) = []"
  "before_complete (Progress v # rest) = Progress v # before_complete rest"
  by (simp_all add: before_complete_def)

lemma step_pos: "0 < n \<Longrightarrow> 0 < pageProgressStep n"
  by (simp add: pageProgressStep_def)

lemma base_next: "0 < n \<Longrightarrow> progressBase n cur + pageProgressStep n * 6 = progressBase n (cur + 1)"
  by (simp add: progressBase_def pageProgressStep_def field_simps)

lemma base_upper: "0 < n \<Longrightarrow> cur \<le> n \<Longrightarrow> progressBase n (cur + 1) \<le> 90"
  by (simp add: progressBase_def field_simps)

lemma base_lower: "0 < cur \<Longrightarrow> 10 \<le> progressBase n cur"
  by (simp add: progressBase_def)

lemma page_values_sorted: "0 < n \<Longrightarrow> sorted (page_values n cur)"
  using step_pos [of n] by (simp add: page_values_def)

lemma page_values_bounds:
  assumes "0 < n" "v \<in> set (page_values n cur)"
  shows "progressBase n cur \<le> v \<and> v \<le> progressBase n (cur + 1)"
proof -
  have "progressBase n cur \<le> v \<and> v \<le> progressBase n cur + pageProgressStep n * 6"
    using step_pos [OF assms(1)] assms(2) by (auto simp: page_values_def)
  then show ?thesis using base_next [OF assms(1), of cur] by simp
qed

lemma render_ok_step:
  assumes "0 < cur" "cur \<le> n" "outcome cur = PageLoaded None"
  shows "render_pages n outcome cur =
     map Progress (page_values n cur)
     @ (if cur = n then [ProcessingComplete, Progress 100] else render_pages n outcome (cur + 1))"
  using assms
  by (subst render_pages.simps) (simp add: page_ok_events)

lemma render_ok_values:
  assumes ok: "\<forall>p. 0 < p \<and> p \<le> n \<longrightarrow> outcome p = PageLoaded None"
    and "0 < cur" "cur \<le> n"
  shows "sorted (progress_values (render_pages n outcome cur))
       \<and> (\<forall>v\<in>set (progress_values (render_pages n outcome cur)).
            progressBase n cur \<le> v \<and> v \<le> 100)
       \<and> (\<forall>v\<in>set (progress_values (before_complete (render_pages n outcome cur))). v \<le> 90)
       \<and> ProcessingComplete \<in> set (render_pages n outcome cur)
       \<and> last (render_pages n outcome cur) = Progress 100"
  using assms(2,3)
proof (induction "n - cur" arbitrary: cur)
  case 0
  then have eq: "cur = n" by simp
  have n: "0 < n" using "0.prems" by simp
  have ev: "render_pages n outcome cur = map Progress (page_values n cur) @ [ProcessingComplete, Progress 100]"
    using render_ok_step [OF "0.prems"] ok "0.prems" eq by simp
  have bnd: "\<forall>v\<in>set (page_values n cur). progressBase n cur \<le> v \<and> v \<le> 90"
    using page_values_bounds [OF n] base_upper [OF n "0.prems"(2)] by fastforce
  have lo: "progressBase n cur \<le> 100"
    using base_next [OF n, of cur] step_pos [OF n] base_upper [OF n "0.prems"(2)] by linarith
  have 1: "sorted (progress_values (render_pages n outcome cur))"
    using page_values_sorted [OF n, of cur] bnd
    by (fastforce simp: ev progress_values_append progress_values_map sorted_append)
  have 2: "\<forall>v\<in>set (progress_values (render_pages n outcome cur)).
            progressBase n cur \<le> v \<and> v \<le> 100"
    using bnd lo by (fastforce simp: ev progress_values_append progress_values_map)
  have 3: "\<forall>v\<in>set (progress_values (before_complete (render_pages n outcome cur))). v \<le> 90"
    using bnd by (simp add: ev before_complete_map before_complete_simps progress_values_append progress_values_map)
  have 4: "ProcessingComplete \<in> set (render_pages n outcome cur)"
    "last (render_pages n outcome cur) = Progress 100"
    by (simp_all add: ev)
  from 1 2 3 4 show ?case by blast
next
  case (Suc d)
  then have lt: "cur < n" by simp
  have n: "0 < n" using Suc.prems by simp
  have ev: "render_pages n outcome cur
            = map Progress (page_values n cur) @ render_pages n outcome (cur + 1)"
    using render_ok_step [OF Suc.prems] ok Suc.prems lt by simp
  have ih: "sorted (progress_values (render_pages n outcome (cur + 1)))
       \<and> (\<forall>v\<in>set (progress_values (render_pages n outcome (cur + 1))).
            progressBase n (cur + 1) \<le> v \<and> v \<le> 100)
       \<and> (\<forall>v\<in>set (progress_values (before_complete (render_pages n outcome (cur + 1)))). v \<le> 90)
       \<and> ProcessingComplete \<in> set (render_pages n outcome (cur + 1))
       \<and> last (render_pages n outcome (cur + 1)) = Progress 100"
    using Suc.hyps(1) [of "cur + 1"] Suc.hyps(2) lt by simp
  have bnd: "\<forall>v\<in>set (page_values n cur). progressBase n cur \<le> v \<and> v \<le> progressBase n (cur + 1)"
    using page_values_bounds [OF n] by blast
  have up: "progressBase n (cur + 1) \<le> 90" using base_upper [OF n Suc.prems(2)] .
  have mono: "progressBase n cur \<le> progressBase n (cur + 1)"
    using base_next [OF n, of cur] step_pos [OF n] by linarith
  have 1: "sorted (progress_values (render_pages n outcome cur))"
    using page_values_sorted [OF n, of cur] bnd ih
    by (fastforce simp: ev progress_values_append progress_values_map sorted_append)
  have 2: "\<forall>v\<in>set (progress_values (render_pages n outcome cur)).
            progressBase n cur \<le> v \<and> v \<le> 100"
    using bnd ih up mono by (fastforce simp: ev progress_values_append progress_values_map)
  have 3: "\<forall>v\<in>set (progress_values (before_complete (render_pages n outcome cur))). v \<le> 90"
    using bnd ih up by (fastforce simp: ev before_complete_map progress_values_append progress_values_map)
  have ne: "render_pages n outcome (cur + 1) \<noteq> []" using ih by auto
  have 4: "ProcessingComplete \<in> set (render_pages n outcome cur)"
    "last (render_pages n outcome cur) = Progress 100"
    using ih ne by (simp_all add: ev)
  from 1 2 3 4 show ?case by blast
qed

lemma render_ok_trace:
  assumes ok: "\<forall>p. 0 < p \<and> p \<le> n \<longrightarrow> outcome p = PageLoaded None"
    and "0 < cur" "cur \<le> n"
  shows "render_pages n outcome cur
         = concat (map (\<lambda>p. map Progress (page_values n p)) [cur..<Suc n])
           @ [ProcessingComplete, Progress 100]"
  using assms(2,3)
proof (induction "n - cur" arbitrary: cur)
  case 0
  then have eq: "cur = n" by simp
  have "render_pages n outcome cur = map Progress (page_values n cur) @ [ProcessingComplete, Progress 100]"
    using render_ok_step [OF "0.prems"] ok "0.prems" eq by simp
  then show ?case using eq by simp
next
  case (Suc d)
  then have lt: "cur < n" by simp
  have ev: "render_pages n outcome cur
            = map Progress (page_values n cur) @ render_pages n outcome (cur + 1)"
    using render_ok_step [OF Suc.prems] ok Suc.prems lt by simp
  have ih: "render_pages n outcome (cur + 1)
         = concat (map (\<lambda>p. map Progress (page_values n p)) [cur + 1..<Suc n])
           @ [ProcessingComplete, Progress 100]"
    using Suc.hyps(1) [of "cur + 1"] Suc.hyps(2) lt by simp
  have up: "[cur..<Suc n] = cur # [cur + 1..<Suc n]"
    using lt by (simp add: upt_conv_Cons)
  show ?case unfolding ev up ih by simp
qed

lemma before_complete_prefix:
  "ProcessingComplete \<notin> set xs \<Longrightarrow> before_complete (xs @ ProcessingComplete # rest) = xs"
  by (induction xs) (auto simp: before_complete_def)

lemma document_trace:
  assumes "0 < numPages"
    and "\<forall>p. 0 < p \<and> p \<le> numPages \<longrightarrow> outcome p = PageLoaded None"
  shows "document_run numPages outcome
         = Progress 10
           # concat (map (\<lambda>p. map (\<lambda>k. Progress ((real p - 1) / real numPages * 80 + 10
                                                     + 80 / real numPages / 6 * real k))
                                    [1, 2, 3, 4, 5, 6])
                         [1..<Suc numPages])
           @ [ProcessingComplete, Progress 100]"
proof -
  have one: "0 < (1::nat)" "1 \<le> numPages" using assms by simp_all
  have pv: "map Progress (page_values numPages p)
            = map (\<lambda>k. Progress ((real p - 1) / real numPages * 80 + 10
                                  + 80 / real numPages / 6 * real k)) [1, 2, 3, 4, 5, 6]" for p
    by (simp add: page_values_def progressBase_def pageProgressStep_def)
  show ?thesis
    unfolding document_run_def onDocumentLoadSuccess_def render_ok_trace [OF assms(2) one] pv
    by simp
qed

text \<open>
  Claim C9. In a document run in which every page loads and is processed without an
  exception, the events are exactly: the progress value 10; then, for each page from 1 to
  \<^verbatim>\<open>numPages\<close> in order, the six values \<open>(page - 1) / numPages * 80 + 10 + 80 / numPages / 6 * k\<close>
  for \<open>k\<close> from 1 to 6; then \<^verbatim>\<open>onProcessingComplete\<close>; then the progress value 100. So
  all values of all pages, the last page included, come before the completion callback,
  and 100 comes once, after it, as the last event. The values are in non-decreasing
  order, each lies between 0 and 100, and every value before the completion callback is
  below 100.
\<close>

theorem progress_monotone:
  assumes "0 < numPages"
    and "\<forall>p. 0 < p \<and> p \<le> numPages \<longrightarrow> outcome p = PageLoaded None"
  shows "document_run numPages outcome
         = Progress 10
           # concat (map (\<lambda>p. map (\<lambda>k. Progress ((real p - 1) / real numPages * 80 + 10
                                                     + 80 / real numPages / 6 * real k))
                                    [1, 2, 3, 4, 5, 6])
                         [1..<Suc numPages])
           @ [ProcessingComplete, Progress 100]
       \<and> before_complete (document_run numPages outcome)
         = Progress 10
           # concat (map (\<lambda>p. map (\<lambda>k. Progress ((real p - 1) / real numPages * 80 + 10
                                                     + 80 / real numPages / 6 * real k))
                                    [1, 2, 3, 4, 5, 6])
                         [1..<Suc numPages])
       \<and> sorted (progress_values (document_run numPages outcome))
       \<and> (\<forall>v\<in>set (progress_values (document_run numPages outcome)). 0 \<le> v \<and> v \<le> 100)
       \<and> (\<forall>v\<in>set (progress_values (before_complete (document_run numPages outcome))). v < 100)
       \<and> ProcessingComplete \<in> set (document_run numPages outcome)
       \<and> last (document_run numPages outcome) = Progress 100"
proof -
  have one: "0 < (1::nat)" "1 \<le> numPages" using assms by simp_all
  note r = render_ok_values [OF assms(2) one]
  note tr = document_trace [OF assms]
  have b1: "progressBase numPages 1 = 10" by (simp add: progressBase_def)
  have ne: "render_pages numPages outcome 1 \<noteq> []" using r by auto
  have 0: "before_complete (document_run numPages outcome)
         = Progress 10
           # concat (map (\<lambda>p. map (\<lambda>k. Progress ((real p - 1) / real numPages * 80 + 10
                                                     + 80 / real numPages / 6 * real k))
                                    [1, 2, 3, 4, 5, 6])
                         [1..<Suc numPages])"
    unfolding tr before_complete_simps(2)
    by (rule arg_cong [OF before_complete_prefix]) auto
  have 1: "sorted (progress_values (document_run numPages outcome))"
    using r b1 by (simp add: document_run_def onDocumentLoadSuccess_def)
  have 2: "\<forall>v\<in>set (progress_values (document_run numPages outcome)). 0 \<le> v \<and> v \<le> 100"
    using r b1 by (fastforce simp: document_run_def onDocumentLoadSuccess_def)
  have 3: "\<forall>v\<in>set (progress_values (before_complete (document_run numPages outcome))). v < 100"
    using r by (fastforce simp: document_run_def onDocumentLoadSuccess_def before_complete_simps)
  have 4: "ProcessingComplete \<in> set (document_run numPages outcome)"
    "last (document_run numPages outcome) = Progress 100"
    using r ne by (simp_all add: document_run_def onDocumentLoadSuccess_def)
  from tr 0 1 2 3 4 show ?thesis by blast
qed

text \<open>
  Claim C9, at concrete inputs: the events of a two-page run, where the completion
  callback and the value 100 come after the six values of page 2, and the values of a
  one-page run.
\<close>

theorem progress_monotone_witness:
  "document_run 2 all_pages_ok
     = [Progress 10,
        Progress (50/3), Progress (70/3), Progress 30, Progress (110/3), Progress (130/3), Progress 50,
        Progress (170/3), Progress (190/3), Progress 70, Progress (230/3), Progress (250/3), Progress 90,
        ProcessingComplete, Progress 100]
   \<and> progress_values (document_run 1 all_pages_ok) = [10, 70/3, 110/3, 50, 190/3, 230/3, 90, 100]
   \<and> sorted (progress_values (document_run 2 all_pages_ok))
   \<and> last (document_run 1 all_pages_ok) = Progress 100"
proof -
  have ok1: "\<forall>p. 0 < p \<and> p \<le> 1 \<longrightarrow> all_pages_ok p = PageLoaded None"
    and ok2: "\<forall>p. 0 < p \<and> p \<le> 2 \<longrightarrow> all_pages_ok p = PageLoaded None"
    by (simp_all add: all_pages_ok_def)
  have p1: "0 < (1::nat)" and p2: "0 < (2::nat)" by simp_all
  note t1 = progress_monotone [OF p1 ok1]
  note t2 = progress_monotone [OF p2 ok2]
  have u2: "[1..<Suc 2] = [1, 2]" and u1: "[1..<Suc 1] = [1]"
    by (simp_all add: upt_rec)
  have a: "document_run 2 all_pages_ok
     = [Progress 10,
        Progress (50/3), Progress (70/3), Progress 30, Progress (110/3), Progress (130/3), Progress 50,
        Progress (170/3), Progress (190/3), Progress 70, Progress (230/3), Progress (250/3), Progress 90,
        ProcessingComplete, Progress 100]"
    unfolding conjunct1 [OF t2] u2 by simp
  have b: "progress_values (document_run 1 all_pages_ok) = [10, 70/3, 110/3, 50, 190/3, 230/3, 90, 100]"
    unfolding conjunct1 [OF t1] u1 by simp
  have c: "sorted (progress_values (document_run 2 all_pages_ok))" using t2 by blast
  have d: "last (document_run 1 all_pages_ok) = Progress 100" using t1 by blast
  show ?thesis by (intro conjI a b c d)
qed

end
